theory Spec2Isabelle
  imports Main "HOL-Library.Sublist"
begin

section \<open>The browser session and Python's effects\<close>

text \<open>
  The page objects drive a browser through Selenium. What the browser answers is not part
  of the repository, so the session is an oracle: a record with one function for each
  Selenium call the modelled code makes. Every oracle receives the trace of all events so
  far, so its answer may change from one call to the next (an element that is stale twice
  and then clicks, a page that finishes rendering). An answer is either a value or a raised
  exception.

  Strings are Python \<open>str\<close> values restricted to code points below 256, one \<open>char\<close> each.
  A locator is the pair (By strategy, value); an element is the handle of a WebElement.
  Timeouts are whole seconds, as the type hints of the source say.
\<close>

type_synonym locator = "string \<times> string"
type_synonym element = nat

text \<open>
  The exceptions the modelled code raises, catches or lets through. All of them are
  subclasses of Python's \<open>Exception\<close>, so \<open>except Exception\<close> catches every value of this type.
\<close>

datatype exn =
    TimeoutException
  | NoSuchElementException
  | StaleElementReferenceException
  | ElementNotInteractableException
  | WebDriverException
  | AssertionError string
  | ValueError string
  | ImportError
  | Exception string

text \<open>
  The lines that exception handlers print are events of the trace, since they are how a
  swallowed failure is reported; the progress lines printed along the way are not modelled.
  A printed line is kept as the pieces of its f-string: literal text and the interpolated
  values, without fixing how Python renders a tuple or an exception.
\<close>

datatype part = Lit string | Loc locator | Exn exn

datatype event =
    UntilPresence locator int
  | UntilVisible locator int
  | UntilClickable locator int
  | UntilReady int
  | FindElements locator
  | Click element
  | ExecuteScript string element
  | Clear element
  | SendKeys element string
  | GetText element
  | GetAttribute element string
  | IsDisplayed element
  | CurrentUrl
  | SaveScreenshot string
  | ImplicitlyWait int
  | MaximizeWindow
  | Quit
  | Sleep nat
  | Print "part list"

type_synonym trace = "event list"

record driver =
  wait_until_presence :: "trace \<Rightarrow> locator \<Rightarrow> int \<Rightarrow> exn + element"
  wait_until_visible :: "trace \<Rightarrow> locator \<Rightarrow> int \<Rightarrow> exn + element"
  wait_until_clickable :: "trace \<Rightarrow> locator \<Rightarrow> int \<Rightarrow> exn + element"
  wait_until_ready :: "trace \<Rightarrow> int \<Rightarrow> exn + unit"
  driver_find_elements :: "trace \<Rightarrow> locator \<Rightarrow> exn + element list"
  element_click :: "trace \<Rightarrow> element \<Rightarrow> exn + unit"
  driver_execute_script :: "trace \<Rightarrow> string \<Rightarrow> element \<Rightarrow> exn + unit"
  element_clear :: "trace \<Rightarrow> element \<Rightarrow> exn + unit"
  element_send_keys :: "trace \<Rightarrow> element \<Rightarrow> string \<Rightarrow> exn + unit"
  element_text :: "trace \<Rightarrow> element \<Rightarrow> exn + string"
  element_get_attribute :: "trace \<Rightarrow> element \<Rightarrow> string \<Rightarrow> exn + string option"
  element_is_displayed :: "trace \<Rightarrow> element \<Rightarrow> exn + bool"
  driver_current_url :: "trace \<Rightarrow> exn + string"
  driver_save_screenshot :: "trace \<Rightarrow> string \<Rightarrow> exn + bool"
  driver_implicitly_wait :: "trace \<Rightarrow> int \<Rightarrow> exn + unit"
  driver_maximize_window :: "trace \<Rightarrow> exn + unit"
  driver_quit :: "trace \<Rightarrow> exn + unit"

text \<open>
  A Python statement sequence is a function from the trace so far to its outcome (the
  returned value or the raised exception) and the extended trace.
\<close>

type_synonym 'a io = "trace \<Rightarrow> (exn + 'a) \<times> trace"

definition return :: "'a \<Rightarrow> 'a io" where
  "return x h = (Inr x, h)"

definition raise :: "exn \<Rightarrow> 'a io" where
  "raise e h = (Inl e, h)"

definition bind :: "'a io \<Rightarrow> ('a \<Rightarrow> 'b io) \<Rightarrow> 'b io" where
  "bind m f h = (case m h of (Inl e, h') \<Rightarrow> (Inl e, h') | (Inr x, h') \<Rightarrow> f x h')"

text \<open>\<open>try: m  except Exception as e: handler e\<close>; a narrower \<open>except\<close> clause is a handler
  that raises again what it does not name.\<close>

definition try_except :: "'a io \<Rightarrow> (exn \<Rightarrow> 'a io) \<Rightarrow> 'a io" where
  "try_except m handler h =
     (case m h of (Inl e, h') \<Rightarrow> handler e h' | (Inr x, h') \<Rightarrow> (Inr x, h'))"

text \<open>One call of the session: the oracle answers from the trace, the event is appended.\<close>

definition call :: "(trace \<Rightarrow> exn + 'a) \<Rightarrow> event \<Rightarrow> 'a io" where
  "call oracle ev h = (oracle h, h @ [ev])"

definition print :: "part list \<Rightarrow> unit io" where
  "print ps h = (Inr (), h @ [Print ps])"

definition sleep :: "nat \<Rightarrow> unit io" where
  \<comment> \<open>\<open>time.sleep\<close>, the pause in milliseconds\<close>
  "sleep ms h = (Inr (), h @ [Sleep ms])"

section \<open>Python string operations\<close>

definition is_space :: "char \<Rightarrow> bool" where
  \<comment> \<open>\<open>str.isspace\<close> on the code points below 256\<close>
  "is_space c = (let n = of_char c :: nat in
     (9 \<le> n \<and> n \<le> 13) \<or> (28 \<le> n \<and> n \<le> 32) \<or> n = 133 \<or> n = 160)"

definition strip_chars :: "(char \<Rightarrow> bool) \<Rightarrow> string \<Rightarrow> string" where
  "strip_chars p s = rev (dropWhile p (rev (dropWhile p s)))"

definition strip :: "string \<Rightarrow> string" where
  \<comment> \<open>\<open>s.strip()\<close>\<close>
  "strip s = strip_chars is_space s"

definition strip_quotes :: "string \<Rightarrow> string" where
  \<comment> \<open>\<open>s.strip('"\'')\<close>\<close>
  "strip_quotes s = strip_chars (\<lambda>c. c = CHR 0x22 \<or> c = CHR 0x27) s"

definition lower_char :: "char \<Rightarrow> char" where
  "lower_char c = (let n = of_char c :: nat in
     if (65 \<le> n \<and> n \<le> 90) \<or> (192 \<le> n \<and> n \<le> 222 \<and> n \<noteq> 215) then char_of (n + 32) else c)"

definition lower :: "string \<Rightarrow> string" where
  \<comment> \<open>\<open>s.lower()\<close>\<close>
  "lower s = map lower_char s"

fun contains :: "string \<Rightarrow> string \<Rightarrow> bool" where
  \<comment> \<open>\<open>sub in s\<close>\<close>
  "contains sub [] = (sub = [])"
| "contains sub (c # cs) = (prefix sub (c # cs) \<or> contains sub cs)"

section \<open>Configuration and page object\<close>

text \<open>
  The page object receives the settings already resolved (\<open>utils/config.py\<close> reads them
  with \<open>int(self.get(key, default))\<close>); \<open>config\<close> may be \<open>None\<close>.
\<close>

record config =
  get_implicit_wait :: int
  get_explicit_wait :: int
  get_error_timeout :: int

record page =
  page_config :: "config option"

definition default_wait :: "page \<Rightarrow> int" where
  \<comment> \<open>the timeout of \<open>self.wait\<close>, built in \<open>BasePage.__init__\<close>\<close>
  "default_wait pg = (case page_config pg of Some c \<Rightarrow> get_explicit_wait c | None \<Rightarrow> 20)"

definition wait_timeout :: "page \<Rightarrow> int option \<Rightarrow> int" where
  \<comment> \<open>\<open>WebDriverWait(self.driver, timeout) if timeout else self.wait\<close>:
      \<open>None\<close> and \<open>0\<close> are both falsy\<close>
  "wait_timeout pg timeout =
     (case timeout of None \<Rightarrow> default_wait pg
      | Some t \<Rightarrow> if t = 0 then default_wait pg else t)"

section \<open>base\_page.py\<close>

text \<open>
  The methods keep their names, without the leading underscore of the private ones. A
  parameter \<open>timeout: int = None\<close> is an \<open>int option\<close>; where the source has another default
  (\<open>5\<close> for the predicates, \<open>3\<close> for the fallback methods) the caller of the model passes it.
\<close>

definition find_element :: "page \<Rightarrow> driver \<Rightarrow> locator \<Rightarrow> int option \<Rightarrow> element io" where
  "find_element pg d locator timeout =
     (let t = wait_timeout pg timeout
      in call (\<lambda>h. wait_until_presence d h locator t) (UntilPresence locator t))"

definition find_elements :: "page \<Rightarrow> driver \<Rightarrow> locator \<Rightarrow> int option \<Rightarrow> element list io" where
  "find_elements pg d locator timeout =
     (let t = wait_timeout pg timeout
      in bind (call (\<lambda>h. wait_until_presence d h locator t) (UntilPresence locator t))
           (\<lambda>_. call (\<lambda>h. driver_find_elements d h locator) (FindElements locator)))"

definition find_clickable_element :: "page \<Rightarrow> driver \<Rightarrow> locator \<Rightarrow> int option \<Rightarrow> element io" where
  "find_clickable_element pg d locator timeout =
     (let t = wait_timeout pg timeout
      in call (\<lambda>h. wait_until_clickable d h locator t) (UntilClickable locator t))"

definition find_visible_element :: "page \<Rightarrow> driver \<Rightarrow> locator \<Rightarrow> int option \<Rightarrow> element io" where
  "find_visible_element pg d locator timeout =
     (let t = wait_timeout pg timeout
      in call (\<lambda>h. wait_until_visible d h locator t) (UntilVisible locator t))"

definition get_element_text :: "page \<Rightarrow> driver \<Rightarrow> locator \<Rightarrow> int option \<Rightarrow> string io" where
  "get_element_text pg d locator timeout =
     bind (find_visible_element pg d locator timeout) (\<lambda>element.
     bind (call (\<lambda>h. element_text d h element) (GetText element)) (\<lambda>text.
     return (strip text)))"

definition get_element_attribute ::
  "page \<Rightarrow> driver \<Rightarrow> locator \<Rightarrow> string \<Rightarrow> int option \<Rightarrow> string io" where
  \<comment> \<open>\<open>element.get_attribute(attribute) or ""\<close>: \<open>None\<close> and the empty string are falsy\<close>
  "get_element_attribute pg d locator attribute timeout =
     bind (find_element pg d locator timeout) (\<lambda>element.
     bind (call (\<lambda>h. element_get_attribute d h element attribute) (GetAttribute element attribute))
       (\<lambda>v. return (case v of None \<Rightarrow> [] | Some s \<Rightarrow> s)))"

text \<open>
  The three predicates build their own \<open>WebDriverWait(self.driver, timeout)\<close> (default 5)
  and catch \<open>TimeoutException\<close> only.
\<close>

definition on_timeout_false :: "exn \<Rightarrow> bool io" where
  \<comment> \<open>\<open>except TimeoutException: return False\<close>\<close>
  "on_timeout_false e = (if e = TimeoutException then return False else raise e)"

definition is_element_present :: "driver \<Rightarrow> locator \<Rightarrow> int \<Rightarrow> bool io" where
  "is_element_present d locator timeout =
     try_except
       (bind (call (\<lambda>h. wait_until_presence d h locator timeout) (UntilPresence locator timeout))
          (\<lambda>_. return True))
       on_timeout_false"

definition is_element_visible :: "driver \<Rightarrow> locator \<Rightarrow> int \<Rightarrow> bool io" where
  "is_element_visible d locator timeout =
     try_except
       (bind (call (\<lambda>h. wait_until_visible d h locator timeout) (UntilVisible locator timeout))
          (\<lambda>_. return True))
       on_timeout_false"

definition is_element_clickable :: "driver \<Rightarrow> locator \<Rightarrow> int \<Rightarrow> bool io" where
  "is_element_clickable d locator timeout =
     try_except
       (bind (call (\<lambda>h. wait_until_clickable d h locator timeout) (UntilClickable locator timeout))
          (\<lambda>_. return True))
       on_timeout_false"

text \<open>
  \<open>_click_with_retry\<close>: the loop \<open>for attempt in range(max_attempts)\<close> runs over the list of
  attempt numbers. The element handle is a parameter: the loop clicks the handle it was given.
\<close>

definition py_range :: "int \<Rightarrow> int list" where
  "py_range n = map int [0..<nat n]"

definition click_script :: string where
  "click_script = ''arguments[0].click();''"

fun click_attempts :: "driver \<Rightarrow> element \<Rightarrow> int \<Rightarrow> int list \<Rightarrow> unit io" where
  "click_attempts d element max_attempts [] = return ()"
| "click_attempts d element max_attempts (attempt # rest) =
     try_except (call (\<lambda>h. element_click d h element) (Click element))
       (\<lambda>e. if e = StaleElementReferenceException then
               (if attempt = max_attempts - 1 then raise e
                else bind (sleep 500) (\<lambda>_. click_attempts d element max_attempts rest))
            else if e = ElementNotInteractableException then
               call (\<lambda>h. driver_execute_script d h click_script element)
                 (ExecuteScript click_script element)
            else raise e)"

definition click_with_retry :: "driver \<Rightarrow> element \<Rightarrow> int \<Rightarrow> unit io" where
  "click_with_retry d element max_attempts =
     click_attempts d element max_attempts (py_range max_attempts)"

definition click_element :: "page \<Rightarrow> driver \<Rightarrow> locator \<Rightarrow> int option \<Rightarrow> unit io" where
  "click_element pg d locator timeout =
     bind (find_clickable_element pg d locator timeout) (\<lambda>element.
     click_with_retry d element 3)"

definition send_keys_to_element ::
  "page \<Rightarrow> driver \<Rightarrow> locator \<Rightarrow> string \<Rightarrow> bool \<Rightarrow> unit io" where
  "send_keys_to_element pg d locator text clear_first =
     bind (find_visible_element pg d locator None) (\<lambda>element.
     bind (if clear_first then call (\<lambda>h. element_clear d h element) (Clear element)
           else return ()) (\<lambda>_.
     call (\<lambda>h. element_send_keys d h element text) (SendKeys element text)))"

fun find_element_with_fallback ::
  "page \<Rightarrow> driver \<Rightarrow> locator list \<Rightarrow> int \<Rightarrow> element option io" where
  "find_element_with_fallback pg d [] timeout = return None"
| "find_element_with_fallback pg d (locator # locators) timeout =
     try_except
       (bind (find_element pg d locator (Some timeout)) (\<lambda>element. return (Some element)))
       (\<lambda>e. find_element_with_fallback pg d locators timeout)"

definition wait_for_page_load :: "page \<Rightarrow> driver \<Rightarrow> int option \<Rightarrow> bool io" where
  "wait_for_page_load pg d timeout =
     (let t = wait_timeout pg timeout
      in try_except
           (bind (call (\<lambda>h. wait_until_ready d h t) (UntilReady t)) (\<lambda>_. return True))
           on_timeout_false)"

definition get_current_url :: "driver \<Rightarrow> string io" where
  "get_current_url d = call (driver_current_url d) CurrentUrl"

section \<open>login\_page.py\<close>

definition By_ID :: string where "By_ID = ''id''"
definition By_NAME :: string where "By_NAME = ''name''"
definition By_XPATH :: string where "By_XPATH = ''xpath''"
definition By_CSS_SELECTOR :: string where "By_CSS_SELECTOR = ''css selector''"

definition ERROR_MESSAGE :: locator where
  "ERROR_MESSAGE = (By_CSS_SELECTOR, ''.ulp-input-error-message'')"
definition EMAIL_ERROR :: locator where
  "EMAIL_ERROR = (By_ID, ''error-element-username'')"
definition PASSWORD_ERROR :: locator where
  "PASSWORD_ERROR = (By_ID, ''error-element-password'')"
definition GENERIC_ERROR :: locator where
  "GENERIC_ERROR = (By_CSS_SELECTOR, ''[data-qa-id='' @ [CHR 0x27] @ ''login-error'' @ [CHR 0x27] @ '']'')"

text \<open>
  \<open>_try_locators_with_action\<close>: \<open>action_func\<close> is called as \<open>action_func(locator, *args)\<close>; the
  extra arguments are part of the function passed here, and its result is not used.
\<close>

definition failed_action_line :: "string \<Rightarrow> locator \<Rightarrow> exn \<Rightarrow> part list" where
  "failed_action_line field_name locator e =
     [Lit ''Failed '', Lit field_name, Lit '' action with locator '', Loc locator, Lit '': '', Exn e]"

fun try_locators_with_action ::
  "locator list \<Rightarrow> (locator \<Rightarrow> 'a io) \<Rightarrow> string \<Rightarrow> unit io" where
  "try_locators_with_action [] action_func field_name =
     raise (Exception (''Could not find '' @ field_name @ '' with any of the available locators''))"
| "try_locators_with_action (locator # locators) action_func field_name =
     try_except
       (bind (action_func locator) (\<lambda>_. return ()))
       (\<lambda>e. bind (print (failed_action_line field_name locator e))
              (\<lambda>_. try_locators_with_action locators action_func field_name))"

definition clear_element_with_locator :: "page \<Rightarrow> driver \<Rightarrow> locator \<Rightarrow> unit io" where
  "clear_element_with_locator pg d locator =
     bind (find_visible_element pg d locator None) (\<lambda>element.
     call (\<lambda>h. element_clear d h element) (Clear element))"

text \<open>\<open>_find_error_by_locators\<close>. A WebElement is always truthy, so \<open>if element:\<close> is taken.\<close>

definition error_locators :: "locator list" where
  "error_locators = [ERROR_MESSAGE, GENERIC_ERROR, EMAIL_ERROR, PASSWORD_ERROR]"

definition error_timeout :: "page \<Rightarrow> int" where
  "error_timeout pg = (case page_config pg of Some c \<Rightarrow> get_error_timeout c | None \<Rightarrow> 3)"

fun find_error_in :: "page \<Rightarrow> driver \<Rightarrow> int \<Rightarrow> locator list \<Rightarrow> string io" where
  "find_error_in pg d timeout [] = return []"
| "find_error_in pg d timeout (locator # rest) =
     bind
       (try_except
          (bind (find_visible_element pg d locator (Some timeout)) (\<lambda>element.
           bind (call (\<lambda>h. element_text d h element) (GetText element)) (\<lambda>text.
           let error_text = strip text
           in return (if error_text \<noteq> [] then Some error_text else None))))
          (\<lambda>e. bind (print [Lit ''No error found with locator '', Loc locator, Lit '': '', Exn e])
                 (\<lambda>_. return None)))
       (\<lambda>found. case found of Some error_text \<Rightarrow> return error_text
                 | None \<Rightarrow> find_error_in pg d timeout rest)"

definition find_error_by_locators :: "page \<Rightarrow> driver \<Rightarrow> string io" where
  "find_error_by_locators pg d = find_error_in pg d (error_timeout pg) error_locators"

text \<open>
  \<open>_find_error_by_text_patterns\<close>. One \<open>try\<close> encloses both loops; \<open>element.text\<close> is read a
  second time for the returned value; \<open>and\<close> reads the text only of a displayed element.
\<close>

definition error_patterns :: "string list" where
  "error_patterns = [''incorrect'', ''invalid'', ''wrong'', ''error'', ''failed'',
     ''not found'', ''does not exist'', ''try again'', ''password'']"

definition pattern_xpath :: "string \<Rightarrow> locator" where
  "pattern_xpath pattern = (By_XPATH,
     ''//*[contains(translate(text(), '' @ [CHR 0x27] @ ''ABCDEFGHIJKLMNOPQRSTUVWXYZ'' @ [CHR 0x27]
       @ '', '' @ [CHR 0x27] @ ''abcdefghijklmnopqrstuvwxyz'' @ [CHR 0x27] @ ''), '' @ [CHR 0x27]
       @ pattern @ [CHR 0x27] @ '')]'')"

fun scan_elements :: "driver \<Rightarrow> element list \<Rightarrow> string option io" where
  "scan_elements d [] = return None"
| "scan_elements d (element # rest) =
     bind (call (\<lambda>h. element_is_displayed d h element) (IsDisplayed element)) (\<lambda>displayed.
     if displayed then
       bind (call (\<lambda>h. element_text d h element) (GetText element)) (\<lambda>text.
       if strip text \<noteq> [] then
         bind (call (\<lambda>h. element_text d h element) (GetText element)) (\<lambda>text2.
         return (Some (strip text2)))
       else scan_elements d rest)
     else scan_elements d rest)"

fun scan_patterns :: "page \<Rightarrow> driver \<Rightarrow> string list \<Rightarrow> string option io" where
  "scan_patterns pg d [] = return None"
| "scan_patterns pg d (pattern # rest) =
     bind (find_elements pg d (pattern_xpath pattern) None) (\<lambda>elements.
     bind (scan_elements d elements) (\<lambda>found.
     case found of Some error_text \<Rightarrow> return (Some error_text)
     | None \<Rightarrow> scan_patterns pg d rest))"

definition find_error_by_text_patterns :: "page \<Rightarrow> driver \<Rightarrow> string io" where
  "find_error_by_text_patterns pg d =
     bind (try_except (scan_patterns pg d error_patterns)
             (\<lambda>e. bind (print [Lit ''Error searching by text patterns: '', Exn e])
                    (\<lambda>_. return None)))
       (\<lambda>found. return (case found of Some error_text \<Rightarrow> error_text | None \<Rightarrow> []))"

fun first_error_message :: "string io list \<Rightarrow> string io" where
  "first_error_message [] = return []"
| "first_error_message (strategy # strategies) =
     bind strategy (\<lambda>error_message.
     if error_message \<noteq> [] then return error_message
     else first_error_message strategies)"

definition get_error_message :: "page \<Rightarrow> driver \<Rightarrow> string io" where
  "get_error_message pg d =
     first_error_message [find_error_by_locators pg d, find_error_by_text_patterns pg d]"

text \<open>
  \<open>urlparse\<close> belongs to Python's standard library. The two verification methods take it
  as a parameter: a function from the URL to the six components or to the exception it
  raises. \<open>assert False, message\<close> raises \<open>AssertionError(message)\<close>.
\<close>

record parse_result =
  scheme :: string
  netloc :: string
  path :: string
  params :: string
  query :: string
  fragment :: string

definition lift :: "exn + 'a \<Rightarrow> 'a io" where
  \<comment> \<open>a computation without session calls that returns or raises\<close>
  "lift r h = (r, h)"

definition redirect_url_message :: "string \<Rightarrow> string \<Rightarrow> string \<Rightarrow> string" where
  "redirect_url_message path_fragment current_path current_url =
     ''Expected URL path to contain '' @ [CHR 0x22] @ path_fragment @ [CHR 0x22]
       @ '', but got path: '' @ current_path @ '' (full URL: '' @ current_url @ '')''"

definition verify_redirect_url ::
  "page \<Rightarrow> driver \<Rightarrow> (string \<Rightarrow> exn + parse_result) \<Rightarrow> string \<Rightarrow> unit io" where
  "verify_redirect_url pg d urlparse path_fragment =
     bind (wait_for_page_load pg d (Some 10)) (\<lambda>_.
     bind (get_current_url d) (\<lambda>current_url.
     bind (lift (urlparse current_url)) (\<lambda>current_parsed.
     let current_path = lower (path current_parsed);
         path_fragment_lower = lower path_fragment
     in if \<not> contains path_fragment_lower current_path
        then raise (AssertionError (redirect_url_message path_fragment current_path current_url))
        else return ())))"

definition redirect_provider_message :: "string \<Rightarrow> string \<Rightarrow> string \<Rightarrow> string" where
  "redirect_provider_message expected_domain current_domain current_url =
     ''Expected to be redirected to domain '' @ [CHR 0x22] @ expected_domain @ [CHR 0x22]
       @ '', but got domain: '' @ current_domain @ '' (full URL: '' @ current_url @ '')''"

definition verify_redirect_to_provider ::
  "page \<Rightarrow> driver \<Rightarrow> (string \<Rightarrow> exn + parse_result) \<Rightarrow> string \<Rightarrow> unit io" where
  "verify_redirect_to_provider pg d urlparse expected_url =
     bind (wait_for_page_load pg d (Some 10)) (\<lambda>_.
     bind (get_current_url d) (\<lambda>current_url.
     let expected_url_clean = strip_quotes expected_url
     in bind (lift (urlparse current_url)) (\<lambda>current_parsed.
        bind (lift (urlparse expected_url_clean)) (\<lambda>expected_parsed.
        let current_domain = lower (netloc current_parsed);
            expected_domain = lower (netloc expected_parsed)
        in if \<not> contains expected_domain current_domain \<and> current_domain \<noteq> expected_domain
           then raise (AssertionError
                  (redirect_provider_message expected_domain current_domain current_url))
           else return ()))))"

section \<open>A model of \<open>urllib.parse.urlparse\<close>\<close>

text \<open>
  For the concrete URLs of the examples the parser is the algorithm of CPython 3.12's
  \<open>urlsplit\<close> and \<open>urlparse\<close> on \<open>str\<close> input: leading control characters and spaces are
  dropped, tab, CR and LF are removed, a scheme is split off at the first colon when the
  text before it is a letter followed by scheme characters, \<open>//\<close> starts the network
  location, which ends before the first of \<open>/ ? #\<close>, then the fragment and the query are
  cut off, and for a scheme that uses parameters the path is cut at the first \<open>;\<close> of its last
  segment. Unbalanced brackets in the network location raise \<open>ValueError\<close>. The checks of
  what stands between balanced brackets and of a non-ASCII network location are left out.
\<close>

definition is_ascii_alpha :: "char \<Rightarrow> bool" where
  "is_ascii_alpha c = (let n = of_char c :: nat in (65 \<le> n \<and> n \<le> 90) \<or> (97 \<le> n \<and> n \<le> 122))"

definition is_scheme_char :: "char \<Rightarrow> bool" where
  "is_scheme_char c = (let n = of_char c :: nat in
     (65 \<le> n \<and> n \<le> 90) \<or> (97 \<le> n \<and> n \<le> 122) \<or> (48 \<le> n \<and> n \<le> 57)
     \<or> c = CHR ''+'' \<or> c = CHR ''-'' \<or> c = CHR ''.'')"

definition uses_params :: "string list" where
  "uses_params = [[], ''ftp'', ''hdl'', ''prospero'', ''http'', ''imap'', ''https'', ''shttp'',
     ''rtsp'', ''rtsps'', ''rtspu'', ''sip'', ''sips'', ''mms'', ''sftp'', ''tel'']"

definition split_first :: "char \<Rightarrow> string \<Rightarrow> string \<times> string" where
  \<comment> \<open>\<open>s.split(c, 1)\<close> when \<open>c in s\<close>; otherwise the whole string and the empty string\<close>
  "split_first c s = (takeWhile (\<lambda>x. x \<noteq> c) s, drop 1 (dropWhile (\<lambda>x. x \<noteq> c) s))"

definition split_scheme :: "string \<Rightarrow> string \<times> string" where
  "split_scheme url =
     (let pre = takeWhile (\<lambda>x. x \<noteq> CHR '':'') url
      in if CHR '':'' \<in> set url \<and> pre \<noteq> [] \<and> is_ascii_alpha (hd pre) \<and> list_all is_scheme_char pre
         then (lower pre, drop (length pre + 1) url)
         else ([], url))"

definition splitnetloc :: "string \<Rightarrow> string \<times> string" where
  \<comment> \<open>\<open>_splitnetloc(url, 2)\<close>\<close>
  "splitnetloc url =
     (let delim = (\<lambda>x. x = CHR ''/'' \<or> x = CHR ''?'' \<or> x = CHR ''#'')
      in (takeWhile (\<lambda>x. \<not> delim x) (drop 2 url), dropWhile (\<lambda>x. \<not> delim x) (drop 2 url)))"

definition splitparams :: "string \<Rightarrow> string \<times> string" where
  \<comment> \<open>\<open>_splitparams\<close>, called when \<open>';' in url\<close>\<close>
  "splitparams url =
     (if CHR ''/'' \<in> set url then
        (let last_seg = rev (takeWhile (\<lambda>x. x \<noteq> CHR ''/'') (rev url));
             front = take (length url - length last_seg - 1) url;
             seg = drop (length url - length last_seg - 1) url
         in if CHR '';'' \<in> set seg
            then (front @ takeWhile (\<lambda>x. x \<noteq> CHR '';'') seg,
                  drop 1 (dropWhile (\<lambda>x. x \<noteq> CHR '';'') seg))
            else (url, []))
      else split_first CHR '';'' url)"

definition urllib_urlparse :: "string \<Rightarrow> exn + parse_result" where
  "urllib_urlparse url0 =
     (let url1 = dropWhile (\<lambda>c. (of_char c :: nat) \<le> 32) url0;
          url2 = filter (\<lambda>c. c \<noteq> CHR 0x09 \<and> c \<noteq> CHR 0x0A \<and> c \<noteq> CHR 0x0D) url1;
          (sch, url3) = split_scheme url2;
          (nl, url4) = (if take 2 url3 = ''//'' then splitnetloc url3 else ([], url3))
      in if (CHR ''['' \<in> set nl \<and> CHR '']'' \<notin> set nl) \<or> (CHR '']'' \<in> set nl \<and> CHR ''['' \<notin> set nl)
         then Inl (ValueError ''Invalid IPv6 URL'')
         else
           (let (url5, frag) = (if CHR ''#'' \<in> set url4 then split_first CHR ''#'' url4 else (url4, []));
                (url6, qry) = (if CHR ''?'' \<in> set url5 then split_first CHR ''?'' url5 else (url5, []));
                (url7, prm) = (if sch \<in> set uses_params \<and> CHR '';'' \<in> set url6
                               then splitparams url6 else (url6, []))
            in Inr \<lparr>scheme = sch, netloc = nl, path = url7, params = prm, query = qry,
                    fragment = frag\<rparr>))"

section \<open>utils/driver\_manager.py\<close>

record driver_manager =
  dm_driver :: "driver option"

definition quit_driver :: "driver_manager \<Rightarrow> driver_manager io" where
  \<comment> \<open>\<open>finally: self.driver = None\<close> runs on both paths of the \<open>try\<close>\<close>
  "quit_driver dm =
     (case dm_driver dm of
        None \<Rightarrow> return dm
      | Some drv \<Rightarrow>
          bind (try_except (call (driver_quit drv) Quit)
                  (\<lambda>e. print [Lit ''Error quitting driver: '', Exn e]))
            (\<lambda>_. return (dm\<lparr>dm_driver := None\<rparr>)))"

section \<open>features/environment.py\<close>

text \<open>
  The hooks of the behave runner. The context holds the configuration, the counters, the
  driver of the running scenario (\<open>None\<close> also stands for a missing attribute) and the
  scenario data. The page objects and the timestamps kept in the context play no part in
  what follows and are left out. A scenario carries its name and the status that the runner
  has set when \<open>after_scenario\<close> is called.
\<close>

record metrics =
  total_tests :: int
  passed_tests :: int
  failed_tests :: int
  skipped_tests :: int

record behave_context =
  config_manager :: "config option"
  test_metrics :: metrics
  ctx_driver :: "driver option"
  scenario_data :: "(string \<rightharpoonup> string) option"

record scenario =
  scenario_name :: string
  scenario_status :: string

definition before_all :: "config option \<Rightarrow> behave_context" where
  "before_all cfg =
     \<lparr>config_manager = cfg,
      test_metrics = \<lparr>total_tests = 0, passed_tests = 0, failed_tests = 0, skipped_tests = 0\<rparr>,
      ctx_driver = None,
      scenario_data = None\<rparr>"

text \<open>
  \<open>before_scenario\<close>. The statements inside its \<open>try\<close> (importing \<open>DriverManager\<close> and creating
  the browser) are outside the model; their outcome \<open>init\<close> is an input: the new driver or
  the exception raised. A driver object is truthy, so both \<open>if context.driver:\<close> are taken
  when there is one. \<open>headless\<close> is the value of the comparison on the environment variable
  \<open>HEADLESS\<close>. The line that counts the scenario is the last one of the function.
\<close>

definition before_scenario :: "behave_context \<Rightarrow> exn + driver \<Rightarrow> bool \<Rightarrow> behave_context io" where
  "before_scenario ctx init headless =
     (case init of
        Inl e \<Rightarrow>
          if e = ImportError then return (ctx\<lparr>ctx_driver := None\<rparr>)
          else raise e
      | Inr drv \<Rightarrow>
          (let ctx1 = ctx\<lparr>ctx_driver := Some drv\<rparr>;
               implicit_wait = (case config_manager ctx1 of Some c \<Rightarrow> get_implicit_wait c
                                | None \<Rightarrow> 10)
           in bind (call (\<lambda>h. driver_implicitly_wait drv h implicit_wait)
                      (ImplicitlyWait implicit_wait)) (\<lambda>_.
              bind (if \<not> headless then call (driver_maximize_window drv) MaximizeWindow
                    else return ()) (\<lambda>_.
              let ctx2 = ctx1\<lparr>scenario_data := Some Map.empty\<rparr>
              in return (ctx2\<lparr>test_metrics := (test_metrics ctx2)
                           \<lparr>total_tests := total_tests (test_metrics ctx2) + 1\<rparr>\<rparr>)))))"

text \<open>
  \<open>after_scenario\<close>. \<open>now\<close> is \<open>int(time.time())\<close>; \<open>os.path.join\<close> joins with \<open>/\<close>.
\<close>

fun digits :: "nat \<Rightarrow> string" where
  "digits n = (if n < 10 then [''0123456789'' ! n]
               else digits (n div 10) @ [''0123456789'' ! (n mod 10)])"

declare digits.simps [simp del]

definition str_int :: "int \<Rightarrow> string" where
  "str_int i = (if i < 0 then CHR ''-'' # digits (nat (- i)) else digits (nat i))"

definition screenshot_path :: "string \<Rightarrow> int \<Rightarrow> string" where
  "screenshot_path name now =
     ''reports/'' @ ''failure_'' @ map (\<lambda>c. if c = CHR '' '' then CHR ''_'' else c) name
       @ ''_'' @ str_int now @ ''.png''"

definition bump_passed :: "behave_context \<Rightarrow> behave_context" where
  "bump_passed ctx = ctx\<lparr>test_metrics := (test_metrics ctx)
     \<lparr>passed_tests := passed_tests (test_metrics ctx) + 1\<rparr>\<rparr>"

definition bump_failed :: "behave_context \<Rightarrow> behave_context" where
  "bump_failed ctx = ctx\<lparr>test_metrics := (test_metrics ctx)
     \<lparr>failed_tests := failed_tests (test_metrics ctx) + 1\<rparr>\<rparr>"

definition bump_skipped :: "behave_context \<Rightarrow> behave_context" where
  "bump_skipped ctx = ctx\<lparr>test_metrics := (test_metrics ctx)
     \<lparr>skipped_tests := skipped_tests (test_metrics ctx) + 1\<rparr>\<rparr>"

definition take_failure_screenshot :: "behave_context \<Rightarrow> scenario \<Rightarrow> int \<Rightarrow> unit io" where
  "take_failure_screenshot ctx sc now =
     (case ctx_driver ctx of
        None \<Rightarrow> return ()
      | Some drv \<Rightarrow>
          (let screenshot = screenshot_path (scenario_name sc) now
           in try_except
                (bind (call (\<lambda>h. driver_save_screenshot drv h screenshot)
                         (SaveScreenshot screenshot)) (\<lambda>_. return ()))
                (\<lambda>e. print [Lit ''Failed to take screenshot: '', Exn e])))"

definition after_scenario :: "behave_context \<Rightarrow> scenario \<Rightarrow> int \<Rightarrow> behave_context io" where
  "after_scenario ctx sc now =
     bind (if scenario_status sc = ''passed'' then return (bump_passed ctx)
           else if scenario_status sc = ''failed'' then
             bind (take_failure_screenshot (bump_failed ctx) sc now)
               (\<lambda>_. return (bump_failed ctx))
           else return (bump_skipped ctx)) (\<lambda>ctx1.
     bind (case ctx_driver ctx1 of
             None \<Rightarrow> return ()
           | Some drv \<Rightarrow>
               try_except (call (driver_quit drv) Quit)
                 (\<lambda>e. print [Lit ''Error closing driver: '', Exn e])) (\<lambda>_.
     return (ctx1\<lparr>scenario_data := None\<rparr>)))"

text \<open>
  \<open>after_all\<close> prints the four counters and, when \<open>total_tests > 0\<close>, the pass rate
  \<open>(passed / total) * 100\<close> formatted with \<open>.2f\<close>. Python computes in binary floating point:
  the quotient of the two integers is the double nearest to it, the product with 100 is
  rounded to the nearest double again, and \<open>.2f\<close> rounds the exact value of that double to
  two decimals; all three round ties to even. \<open>nearest_double n d\<close> is the double nearest
  to \<open>n / d\<close> for positive \<open>n\<close> and \<open>d\<close>, given as a fraction: a mantissa of 53 bits times a
  power of two (the counters stay far inside the range of normal doubles). The printed
  number is given in hundredths of a percent. The counters are never negative.
\<close>

fun bit_length :: "nat \<Rightarrow> nat" where
  "bit_length n = (if n = 0 then 0 else Suc (bit_length (n div 2)))"

declare bit_length.simps [simp del]

definition round_half_even :: "nat \<Rightarrow> nat \<Rightarrow> nat" where
  "round_half_even n d =
     (let q = n div d; r = n mod d
      in if 2 * r < d then q else if d < 2 * r then q + 1 else if even q then q else q + 1)"

definition nearest_double :: "nat \<Rightarrow> nat \<Rightarrow> nat \<times> nat" where
  "nearest_double n d =
     (let e0 = int (bit_length n) - int (bit_length d) - 53;
          scaled = (\<lambda>e. if e \<le> 0 then (n * 2 ^ nat (- e), d) else (n, d * 2 ^ nat e));
          e = (if snd (scaled e0) * 2 ^ 53 \<le> fst (scaled e0) then e0 + 1 else e0);
          m = round_half_even (fst (scaled e)) (snd (scaled e))
      in if e \<le> 0 then (m, 2 ^ nat (- e)) else (m * 2 ^ nat e, 1))"

record summary =
  summary_total :: int
  summary_passed :: int
  summary_failed :: int
  summary_skipped :: int
  summary_pass_rate :: "int option"

definition pass_rate_2f :: "int \<Rightarrow> int \<Rightarrow> int" where
  "pass_rate_2f n_passed n_total =
     (if n_passed = 0 then 0
      else (let (a, b) = nearest_double (nat n_passed) (nat n_total);
                (c, d) = nearest_double (a * 100) b
            in int (round_half_even (c * 100) d)))"

definition after_all :: "behave_context \<Rightarrow> summary" where
  "after_all ctx =
     (let m = test_metrics ctx
      in \<lparr>summary_total = total_tests m,
          summary_passed = passed_tests m,
          summary_failed = failed_tests m,
          summary_skipped = skipped_tests m,
          summary_pass_rate =
            (if total_tests m > 0 then Some (pass_rate_2f (passed_tests m) (total_tests m))
             else None)\<rparr>)"

text \<open>
  A run: the runner calls \<open>before_scenario\<close>, executes the steps, sets the status and calls
  \<open>after_scenario\<close>, scenario after scenario. The steps themselves are not modelled; an
  exception that leaves a hook ends the modelled run.
\<close>

record execution =
  exec_scenario :: scenario
  exec_init :: "exn + driver"
  exec_headless :: bool
  exec_now :: int

definition run_scenario :: "behave_context \<Rightarrow> execution \<Rightarrow> behave_context io" where
  "run_scenario ctx x =
     bind (before_scenario ctx (exec_init x) (exec_headless x)) (\<lambda>ctx1.
     after_scenario ctx1 (exec_scenario x) (exec_now x))"

fun run_scenarios :: "behave_context \<Rightarrow> execution list \<Rightarrow> behave_context io" where
  "run_scenarios ctx [] = return ctx"
| "run_scenarios ctx (x # xs) = bind (run_scenario ctx x) (\<lambda>ctx1. run_scenarios ctx1 xs)"

section \<open>Example sessions\<close>

text \<open>
  A page that does not change: a locator either resolves to an element or times out, an
  element has a text, and every other call succeeds. The examples below adjust single
  answers of it.
\<close>

definition static_driver :: "(locator \<Rightarrow> element option) \<Rightarrow> (element \<Rightarrow> string) \<Rightarrow> driver" where
  "static_driver located txt =
     \<lparr>wait_until_presence = (\<lambda>h l t. case located l of Some el \<Rightarrow> Inr el | None \<Rightarrow> Inl TimeoutException),
      wait_until_visible = (\<lambda>h l t. case located l of Some el \<Rightarrow> Inr el | None \<Rightarrow> Inl TimeoutException),
      wait_until_clickable = (\<lambda>h l t. case located l of Some el \<Rightarrow> Inr el | None \<Rightarrow> Inl TimeoutException),
      wait_until_ready = (\<lambda>h t. Inr ()),
      driver_find_elements = (\<lambda>h l. Inr (case located l of Some el \<Rightarrow> [el] | None \<Rightarrow> [])),
      element_click = (\<lambda>h el. Inr ()),
      driver_execute_script = (\<lambda>h script el. Inr ()),
      element_clear = (\<lambda>h el. Inr ()),
      element_send_keys = (\<lambda>h el keys. Inr ()),
      element_text = (\<lambda>h el. Inr (txt el)),
      element_get_attribute = (\<lambda>h el a. Inr None),
      element_is_displayed = (\<lambda>h el. Inr True),
      driver_current_url = (\<lambda>h. Inr []),
      driver_save_screenshot = (\<lambda>h file. Inr True),
      driver_implicitly_wait = (\<lambda>h t. Inr ()),
      driver_maximize_window = (\<lambda>h. Inr ()),
      driver_quit = (\<lambda>h. Inr ())\<rparr>"

definition no_config_page :: page where
  "no_config_page = \<lparr>page_config = None\<rparr>"

text \<open>Locators of \<open>login_page.py\<close> that the examples use.\<close>

definition EMAIL_FIELD :: locator where "EMAIL_FIELD = (By_NAME, ''username'')"
definition EMAIL_FIELD_ALT :: locator where "EMAIL_FIELD_ALT = (By_ID, ''username'')"
definition EMAIL_FIELD_TYPE :: locator where
  "EMAIL_FIELD_TYPE = (By_CSS_SELECTOR, ''input[type='' @ [CHR 0x27] @ ''email'' @ [CHR 0x27] @ '']'')"

definition LOGIN_BUTTON :: locator where
  "LOGIN_BUTTON = (By_CSS_SELECTOR, ''button[type='' @ [CHR 0x27] @ ''submit'' @ [CHR 0x27] @ '']'')"

definition alt_email_page :: driver where
  \<comment> \<open>only the second e-mail locator resolves\<close>
  "alt_email_page = static_driver (\<lambda>l. if l = EMAIL_FIELD_ALT then Some 1 else None) (\<lambda>el. [])"

definition blocked_email_page :: driver where
  \<comment> \<open>the first e-mail locator resolves to a field that cannot be cleared\<close>
  "blocked_email_page =
     (static_driver (\<lambda>l. if l = EMAIL_FIELD then Some 1
                         else if l = EMAIL_FIELD_ALT then Some 2 else None) (\<lambda>el. []))
     \<lparr>element_clear := (\<lambda>h el. if el = 1 then Inl ElementNotInteractableException else Inr ())\<rparr>"

definition stale_twice_page :: driver where
  \<comment> \<open>the first two clicks of an element raise the stale-reference exception\<close>
  "stale_twice_page = (static_driver (\<lambda>l. if l = LOGIN_BUTTON then Some 1 else None) (\<lambda>el. []))
     \<lparr>element_click := (\<lambda>h el. if length (filter (\<lambda>ev. ev = Click el) h) < 2
                                 then Inl StaleElementReferenceException else Inr ())\<rparr>"

definition always_stale_page :: driver where
  "always_stale_page = (static_driver (\<lambda>l. if l = LOGIN_BUTTON then Some 1 else None) (\<lambda>el. []))
     \<lparr>element_click := (\<lambda>h el. Inl StaleElementReferenceException)\<rparr>"

definition dashboard_page :: driver where
  "dashboard_page = (static_driver (\<lambda>l. None) (\<lambda>el. []))
     \<lparr>driver_current_url := (\<lambda>h. Inr ''https://app.example.com/home/dashboard?ref=x'')\<rparr>"

definition google_oauth_page :: driver where
  "google_oauth_page = (static_driver (\<lambda>l. None) (\<lambda>el. []))
     \<lparr>driver_current_url := (\<lambda>h. Inr ''https://accounts.google.com/oauth/authorize?client_id=1&state=xyz'')\<rparr>"

definition crashing_quit_page :: driver where
  "crashing_quit_page = (static_driver (\<lambda>l. None) (\<lambda>el. []))
     \<lparr>driver_quit := (\<lambda>h. Inl WebDriverException)\<rparr>"

definition blank_page :: driver where
  "blank_page = static_driver (\<lambda>l. None) (\<lambda>el. [])"

definition scenario_run :: "string \<Rightarrow> string \<Rightarrow> exn + driver \<Rightarrow> execution" where
  "scenario_run name status init =
     \<lparr>exec_scenario = \<lparr>scenario_name = name, scenario_status = status\<rparr>,
      exec_init = init, exec_headless = True, exec_now = 1700000000\<rparr>"

definition import_failure_run :: "execution list" where
  "import_failure_run =
     [scenario_run ''Valid login'' ''failed'' (Inl ImportError),
      scenario_run ''Invalid password'' ''failed'' (Inl ImportError),
      scenario_run ''Empty email'' ''failed'' (Inl ImportError)]"

definition second_fails_run :: "execution list" where
  "second_fails_run =
     [scenario_run ''Valid login'' ''passed'' (Inr blank_page),
      scenario_run ''Invalid password'' ''failed'' (Inr blank_page),
      scenario_run ''Empty email'' ''passed'' (Inr blank_page)]"

definition two_errors_page :: driver where
  "two_errors_page = static_driver
     (\<lambda>l. if l = GENERIC_ERROR then Some 1 else if l = EMAIL_ERROR then Some 2 else None)
     (\<lambda>el. if el = 1 then ''Login failed'' else ''Enter an email address'')"

definition incorrect_only_page :: driver where
  "incorrect_only_page = static_driver
     (\<lambda>l. if l = pattern_xpath ''incorrect'' then Some 4 else None)
     (\<lambda>el. ''Incorrect username or password.'')"

definition blank_then_invalid_page :: driver where
  "blank_then_invalid_page = static_driver
     (\<lambda>l. if l = pattern_xpath ''incorrect'' then Some 5
          else if l = pattern_xpath ''invalid'' then Some 6 else None)
     (\<lambda>el. if el = 5 then ''  '' else ''Invalid email address'')"

section \<open>Notions used in the statements\<close>

text \<open>
  The trace that one attempt of \<open>_try_locators_with_action\<close> leaves behind when it does not
  end the loop: the events of the action and the line printed by the handler. Folded over
  the locators already tried, it gives the trace in which the next locator is tried.
\<close>

definition after_failed_attempt ::
  "(locator \<Rightarrow> 'a io) \<Rightarrow> string \<Rightarrow> trace \<Rightarrow> locator \<Rightarrow> trace" where
  "after_failed_attempt action_func field_name h locator =
     (case action_func locator h of
        (Inl e, h') \<Rightarrow> h' @ [Print (failed_action_line field_name locator e)]
      | (Inr _, h') \<Rightarrow> h')"

text \<open>The events of \<open>n\<close> failed attempts of \<open>_click_with_retry\<close>: a click and the pause after it.\<close>

definition retries :: "nat \<Rightarrow> element \<Rightarrow> trace" where
  "retries n element = concat (replicate n [Click element, Sleep 500])"

text \<open>The events that resolve a locator to an element.\<close>

fun is_resolution :: "event \<Rightarrow> bool" where
  "is_resolution (UntilPresence l t) = True"
| "is_resolution (UntilVisible l t) = True"
| "is_resolution (UntilClickable l t) = True"
| "is_resolution ev = False"

text \<open>The counter that \<open>after_scenario\<close> increments for a status.\<close>

definition status_bump :: "string \<Rightarrow> behave_context \<Rightarrow> behave_context" where
  "status_bump status ctx =
     (if status = ''passed'' then bump_passed ctx
      else if status = ''failed'' then bump_failed ctx
      else bump_skipped ctx)"

text \<open>
  A page that does not change, described by what it shows: the stripped text found through
  a locator (empty when the locator does not resolve), the stripped text of an element when
  it is displayed (empty otherwise), and the first non-empty text along a list.
\<close>

definition located_text :: "(locator \<Rightarrow> exn + element) \<Rightarrow> (element \<Rightarrow> string) \<Rightarrow> locator \<Rightarrow> string" where
  "located_text vis txt l = (case vis l of Inr el \<Rightarrow> strip (txt el) | Inl e \<Rightarrow> [])"

definition first_text :: "('a \<Rightarrow> string) \<Rightarrow> 'a list \<Rightarrow> string" where
  "first_text f xs = (case find (\<lambda>x. f x \<noteq> []) xs of Some x \<Rightarrow> f x | None \<Rightarrow> [])"

definition shown_text :: "(element \<Rightarrow> bool) \<Rightarrow> (element \<Rightarrow> string) \<Rightarrow> element \<Rightarrow> string" where
  "shown_text shown txt el = (if shown el then strip (txt el) else [])"

section \<open>Verification\<close>

lemmas io_defs = bind_def try_except_def call_def return_def raise_def print_def sleep_def lift_def

lemma alt_email_page_waits [simp]:
  "wait_until_presence alt_email_page h l t = (if l = EMAIL_FIELD_ALT then Inr 1 else Inl TimeoutException)"
  "wait_until_visible alt_email_page h l t = (if l = EMAIL_FIELD_ALT then Inr 1 else Inl TimeoutException)"
  "wait_until_clickable alt_email_page h l t = (if l = EMAIL_FIELD_ALT then Inr 1 else Inl TimeoutException)"
  by (simp_all add: alt_email_page_def static_driver_def)

lemma email_locators_differ [simp]:
  "EMAIL_FIELD \<noteq> EMAIL_FIELD_ALT" "EMAIL_FIELD_TYPE \<noteq> EMAIL_FIELD_ALT"
  "EMAIL_FIELD_TYPE \<noteq> EMAIL_FIELD" "EMAIL_FIELD_ALT \<noteq> EMAIL_FIELD"
  by (simp_all add: EMAIL_FIELD_def EMAIL_FIELD_ALT_def EMAIL_FIELD_TYPE_def By_NAME_def By_ID_def
      By_CSS_SELECTOR_def)

subsection \<open>The boolean predicates\<close>

text \<open>
  C10. \<open>is_element_present\<close>, \<open>is_element_visible\<close> and \<open>is_element_clickable\<close>: for every
  session, trace, locator and timeout, each returns \<open>True\<close> when its wait returns an element
  and \<open>False\<close> when its wait raises \<open>TimeoutException\<close>, after exactly one wait of the session,
  and none of them ever raises \<open>TimeoutException\<close> to its caller.
\<close>

theorem predicates_never_time_out:
  "(wait_until_presence d h locator timeout = Inr el \<longrightarrow>
      is_element_present d locator timeout h = (Inr True, h @ [UntilPresence locator timeout]))
   \<and> (wait_until_presence d h locator timeout = Inl TimeoutException \<longrightarrow>
      is_element_present d locator timeout h = (Inr False, h @ [UntilPresence locator timeout]))
   \<and> fst (is_element_present d locator timeout h) \<noteq> Inl TimeoutException
   \<and> (wait_until_visible d h locator timeout = Inr el \<longrightarrow>
      is_element_visible d locator timeout h = (Inr True, h @ [UntilVisible locator timeout]))
   \<and> (wait_until_visible d h locator timeout = Inl TimeoutException \<longrightarrow>
      is_element_visible d locator timeout h = (Inr False, h @ [UntilVisible locator timeout]))
   \<and> fst (is_element_visible d locator timeout h) \<noteq> Inl TimeoutException
   \<and> (wait_until_clickable d h locator timeout = Inr el \<longrightarrow>
      is_element_clickable d locator timeout h = (Inr True, h @ [UntilClickable locator timeout]))
   \<and> (wait_until_clickable d h locator timeout = Inl TimeoutException \<longrightarrow>
      is_element_clickable d locator timeout h = (Inr False, h @ [UntilClickable locator timeout]))
   \<and> fst (is_element_clickable d locator timeout h) \<noteq> Inl TimeoutException"
  by (simp add: is_element_present_def is_element_visible_def is_element_clickable_def
      on_timeout_false_def io_defs split: sum.splits)

theorem predicates_never_time_out_witness:
  "wait_until_presence alt_email_page [] EMAIL_FIELD_ALT 5 = Inr 1
   \<and> is_element_present alt_email_page EMAIL_FIELD_ALT 5 [] = (Inr True, [UntilPresence EMAIL_FIELD_ALT 5])
   \<and> wait_until_presence alt_email_page [] EMAIL_FIELD 5 = Inl TimeoutException
   \<and> is_element_present alt_email_page EMAIL_FIELD 5 [] = (Inr False, [UntilPresence EMAIL_FIELD 5])
   \<and> wait_until_visible alt_email_page [] EMAIL_FIELD_ALT 5 = Inr 1
   \<and> is_element_visible alt_email_page EMAIL_FIELD_ALT 5 [] = (Inr True, [UntilVisible EMAIL_FIELD_ALT 5])
   \<and> wait_until_visible alt_email_page [] EMAIL_FIELD 5 = Inl TimeoutException
   \<and> is_element_visible alt_email_page EMAIL_FIELD 5 [] = (Inr False, [UntilVisible EMAIL_FIELD 5])
   \<and> wait_until_clickable alt_email_page [] EMAIL_FIELD_ALT 5 = Inr 1
   \<and> is_element_clickable alt_email_page EMAIL_FIELD_ALT 5 [] = (Inr True, [UntilClickable EMAIL_FIELD_ALT 5])
   \<and> wait_until_clickable alt_email_page [] EMAIL_FIELD 5 = Inl TimeoutException
   \<and> is_element_clickable alt_email_page EMAIL_FIELD 5 [] = (Inr False, [UntilClickable EMAIL_FIELD 5])"
  using predicates_never_time_out [of alt_email_page "[]" EMAIL_FIELD_ALT 5 1]
    predicates_never_time_out [of alt_email_page "[]" EMAIL_FIELD 5 1]
  by simp

lemma alt_email_page_calls [simp]:
  "element_get_attribute alt_email_page h el a = Inr None"
  "element_clear alt_email_page h el = Inr ()"
  "element_send_keys alt_email_page h el keys = Inr ()"
  by (simp_all add: alt_email_page_def static_driver_def)

lemma wait_timeout_no_config [simp]:
  "wait_timeout no_config_page None = 20"
  "wait_timeout no_config_page (Some t) = (if t = 0 then 20 else t)"
  by (simp_all add: wait_timeout_def default_wait_def no_config_page_def)

subsection \<open>Reading an attribute and a text\<close>

text \<open>
  C9. \<open>get_element_attribute\<close>: when the presence wait returns an element and the element has
  no such attribute (\<open>get_attribute\<close> gives \<open>None\<close>), the result is the empty string, not
  \<open>None\<close> and not an exception. \<open>get_element_text\<close>: when the visibility wait raises (the
  element does not resolve within the timeout), the same exception leaves the method; no
  default is returned and the text is never read.
\<close>

theorem reads_absent_attribute_and_unresolved_text:
  "(wait_until_presence d h locator (wait_timeout pg timeout) = Inr el
      \<and> element_get_attribute d (h @ [UntilPresence locator (wait_timeout pg timeout)]) el attribute = Inr None
    \<longrightarrow> get_element_attribute pg d locator attribute timeout h
          = (Inr [], h @ [UntilPresence locator (wait_timeout pg timeout), GetAttribute el attribute]))
   \<and> (wait_until_visible d h locator (wait_timeout pg timeout) = Inl e
    \<longrightarrow> get_element_text pg d locator timeout h
          = (Inl e, h @ [UntilVisible locator (wait_timeout pg timeout)]))"
  by (simp add: get_element_attribute_def get_element_text_def find_element_def
      find_visible_element_def io_defs Let_def)

theorem reads_absent_attribute_and_unresolved_text_witness:
  "wait_until_presence alt_email_page [] EMAIL_FIELD_ALT 1 = Inr 1
   \<and> element_get_attribute alt_email_page [UntilPresence EMAIL_FIELD_ALT 1] 1 ''validationMessage'' = Inr None
   \<and> get_element_attribute no_config_page alt_email_page EMAIL_FIELD_ALT ''validationMessage'' (Some 1) []
        = (Inr [], [UntilPresence EMAIL_FIELD_ALT 1, GetAttribute 1 ''validationMessage''])
   \<and> wait_until_visible alt_email_page [] EMAIL_FIELD 20 = Inl TimeoutException
   \<and> get_element_text no_config_page alt_email_page EMAIL_FIELD None []
        = (Inl TimeoutException, [UntilVisible EMAIL_FIELD 20])"
  using reads_absent_attribute_and_unresolved_text
      [of alt_email_page "[]" EMAIL_FIELD_ALT no_config_page "Some 1" 1 "''validationMessage''"]
    reads_absent_attribute_and_unresolved_text
      [of alt_email_page "[]" EMAIL_FIELD no_config_page None 1 "''validationMessage''" TimeoutException]
  by simp

subsection \<open>The fallback chain\<close>

lemma find_fallback_step_fail:
  "isl (wait_until_presence d h l (wait_timeout pg (Some timeout))) \<Longrightarrow>
   find_element_with_fallback pg d (l # ls) timeout h
     = find_element_with_fallback pg d ls timeout (h @ [UntilPresence l (wait_timeout pg (Some timeout))])"
  by (cases "wait_until_presence d h l (wait_timeout pg (Some timeout))")
     (simp_all add: find_element_def io_defs Let_def)

lemma find_fallback_step_ok:
  "wait_until_presence d h l (wait_timeout pg (Some timeout)) = Inr el \<Longrightarrow>
   find_element_with_fallback pg d (l # ls) timeout h
     = (Inr (Some el), h @ [UntilPresence l (wait_timeout pg (Some timeout))])"
  by (simp add: find_element_def io_defs Let_def)

lemma find_fallback_first_success:
  "i < length locators \<Longrightarrow>
   \<forall>j<i. isl (wait_until_presence d (h @ map (\<lambda>l. UntilPresence l (wait_timeout pg (Some timeout))) (take j locators))
              (locators ! j) (wait_timeout pg (Some timeout))) \<Longrightarrow>
   wait_until_presence d (h @ map (\<lambda>l. UntilPresence l (wait_timeout pg (Some timeout))) (take i locators))
      (locators ! i) (wait_timeout pg (Some timeout)) = Inr el \<Longrightarrow>
   find_element_with_fallback pg d locators timeout h
     = (Inr (Some el), h @ map (\<lambda>l. UntilPresence l (wait_timeout pg (Some timeout))) (take (Suc i) locators))"
proof (induction locators arbitrary: i h)
  case Nil
  then show ?case by simp
next
  case (Cons l ls)
  show ?case
  proof (cases i)
    case 0
    with Cons.prems show ?thesis
      by (simp del: find_element_with_fallback.simps add: find_fallback_step_ok)
  next
    case (Suc k)
    from Cons.prems(2) Suc have "isl (wait_until_presence d h l (wait_timeout pg (Some timeout)))"
      by (auto dest: spec [of _ 0])
    then have step: "find_element_with_fallback pg d (l # ls) timeout h
      = find_element_with_fallback pg d ls timeout (h @ [UntilPresence l (wait_timeout pg (Some timeout))])"
      by (rule find_fallback_step_fail)
    have k: "k < length ls" using Cons.prems(1) Suc by simp
    have fails: "\<forall>j<k. isl (wait_until_presence d
        ((h @ [UntilPresence l (wait_timeout pg (Some timeout))])
           @ map (\<lambda>l. UntilPresence l (wait_timeout pg (Some timeout))) (take j ls))
        (ls ! j) (wait_timeout pg (Some timeout)))"
    proof (intro allI impI)
      fix j assume "j < k"
      then have "Suc j < i" using Suc by simp
      with Cons.prems(2) show "isl (wait_until_presence d
        ((h @ [UntilPresence l (wait_timeout pg (Some timeout))])
           @ map (\<lambda>l. UntilPresence l (wait_timeout pg (Some timeout))) (take j ls))
        (ls ! j) (wait_timeout pg (Some timeout)))"
        by (auto dest!: spec [of _ "Suc j"])
    qed
    have ok: "wait_until_presence d
        ((h @ [UntilPresence l (wait_timeout pg (Some timeout))])
           @ map (\<lambda>l. UntilPresence l (wait_timeout pg (Some timeout))) (take k ls))
        (ls ! k) (wait_timeout pg (Some timeout)) = Inr el"
      using Cons.prems(3) Suc by simp
    show ?thesis
      using Cons.IH [OF k fails ok] step Suc by simp
  qed
qed

lemma find_fallback_all_fail:
  "\<forall>j<length locators. isl (wait_until_presence d
       (h @ map (\<lambda>l. UntilPresence l (wait_timeout pg (Some timeout))) (take j locators))
       (locators ! j) (wait_timeout pg (Some timeout))) \<Longrightarrow>
   find_element_with_fallback pg d locators timeout h
     = (Inr None, h @ map (\<lambda>l. UntilPresence l (wait_timeout pg (Some timeout))) locators)"
proof (induction locators arbitrary: h)
  case Nil
  then show ?case by (simp add: return_def)
next
  case (Cons l ls)
  from Cons.prems have "isl (wait_until_presence d h l (wait_timeout pg (Some timeout)))"
    by (auto dest: spec [of _ 0])
  then have step: "find_element_with_fallback pg d (l # ls) timeout h
      = find_element_with_fallback pg d ls timeout (h @ [UntilPresence l (wait_timeout pg (Some timeout))])"
    by (rule find_fallback_step_fail)
  have "\<forall>j<length ls. isl (wait_until_presence d
        ((h @ [UntilPresence l (wait_timeout pg (Some timeout))])
           @ map (\<lambda>l. UntilPresence l (wait_timeout pg (Some timeout))) (take j ls))
        (ls ! j) (wait_timeout pg (Some timeout)))"
  proof (intro allI impI)
    fix j assume "j < length ls"
    then have "Suc j < length (l # ls)" by simp
    with Cons.prems show "isl (wait_until_presence d
        ((h @ [UntilPresence l (wait_timeout pg (Some timeout))])
           @ map (\<lambda>l. UntilPresence l (wait_timeout pg (Some timeout))) (take j ls))
        (ls ! j) (wait_timeout pg (Some timeout)))"
      by (auto dest!: spec [of _ "Suc j"])
  qed
  from Cons.IH [OF this] step show ?case by simp
qed


lemma try_locators_step_fail:
  "isl (fst (action_func l h)) \<Longrightarrow>
   try_locators_with_action (l # ls) action_func field_name h
     = try_locators_with_action ls action_func field_name
         (after_failed_attempt action_func field_name h l)"
  by (cases "action_func l h"; cases "fst (action_func l h)")
     (simp_all add: after_failed_attempt_def io_defs)

lemma try_locators_step_ok:
  "fst (action_func l h) = Inr x \<Longrightarrow>
   try_locators_with_action (l # ls) action_func field_name h = (Inr (), snd (action_func l h))"
  by (cases "action_func l h") (simp add: io_defs)

lemma try_locators_first_success:
  "i < length locators \<Longrightarrow>
   \<forall>j<i. isl (fst (action_func (locators ! j)
           (foldl (after_failed_attempt action_func field_name) h (take j locators)))) \<Longrightarrow>
   fst (action_func (locators ! i)
          (foldl (after_failed_attempt action_func field_name) h (take i locators))) = Inr x \<Longrightarrow>
   try_locators_with_action locators action_func field_name h
     = (Inr (), snd (action_func (locators ! i)
          (foldl (after_failed_attempt action_func field_name) h (take i locators))))"
proof (induction locators arbitrary: i h)
  case Nil
  then show ?case by simp
next
  case (Cons l ls)
  show ?case
  proof (cases i)
    case 0
    with Cons.prems show ?thesis
      by (simp del: try_locators_with_action.simps add: try_locators_step_ok)
  next
    case (Suc k)
    from Cons.prems(2) Suc have "isl (fst (action_func l h))"
      by (auto dest: spec [of _ 0])
    then have step: "try_locators_with_action (l # ls) action_func field_name h
      = try_locators_with_action ls action_func field_name
          (after_failed_attempt action_func field_name h l)"
      by (rule try_locators_step_fail)
    have k: "k < length ls" using Cons.prems(1) Suc by simp
    have fails: "\<forall>j<k. isl (fst (action_func (ls ! j)
        (foldl (after_failed_attempt action_func field_name)
           (after_failed_attempt action_func field_name h l) (take j ls))))"
    proof (intro allI impI)
      fix j assume "j < k"
      then have "Suc j < i" using Suc by simp
      with Cons.prems(2) show "isl (fst (action_func (ls ! j)
        (foldl (after_failed_attempt action_func field_name)
           (after_failed_attempt action_func field_name h l) (take j ls))))"
        by (auto dest!: spec [of _ "Suc j"])
    qed
    have ok: "fst (action_func (ls ! k)
        (foldl (after_failed_attempt action_func field_name)
           (after_failed_attempt action_func field_name h l) (take k ls))) = Inr x"
      using Cons.prems(3) Suc by simp
    show ?thesis
      using Cons.IH [OF k fails ok] step Suc by simp
  qed
qed

lemma try_locators_all_fail:
  "\<forall>j<length locators. isl (fst (action_func (locators ! j)
       (foldl (after_failed_attempt action_func field_name) h (take j locators)))) \<Longrightarrow>
   try_locators_with_action locators action_func field_name h
     = (Inl (Exception (''Could not find '' @ field_name @ '' with any of the available locators'')),
        foldl (after_failed_attempt action_func field_name) h locators)"
proof (induction locators arbitrary: h)
  case Nil
  then show ?case by (simp add: raise_def)
next
  case (Cons l ls)
  from Cons.prems have "isl (fst (action_func l h))"
    by (auto dest: spec [of _ 0])
  then have step: "try_locators_with_action (l # ls) action_func field_name h
      = try_locators_with_action ls action_func field_name
          (after_failed_attempt action_func field_name h l)"
    by (rule try_locators_step_fail)
  have "\<forall>j<length ls. isl (fst (action_func (ls ! j)
        (foldl (after_failed_attempt action_func field_name)
           (after_failed_attempt action_func field_name h l) (take j ls))))"
  proof (intro allI impI)
    fix j assume "j < length ls"
    then have "Suc j < length (l # ls)" by simp
    with Cons.prems show "isl (fst (action_func (ls ! j)
        (foldl (after_failed_attempt action_func field_name)
           (after_failed_attempt action_func field_name h l) (take j ls))))"
      by (auto dest!: spec [of _ "Suc j"])
  qed
  from Cons.IH [OF this] step show ?case by simp
qed

text \<open>
  C1, as the code has it. Let the strategies before index \<open>i\<close> of a locator list fail, each in
  the trace in which it is tried. For \<open>find_element_with_fallback\<close> a strategy fails when its
  presence wait raises: if the wait of strategy \<open>i\<close> returns an element, the method returns
  that element, and the session has been asked for the strategies up to \<open>i\<close> and for no later
  one. For \<open>_try_locators_with_action\<close> a strategy fails when the action on it raises, be it in
  resolving the locator or in acting on the element: if the action on strategy \<open>i\<close> returns,
  the method returns normally with the trace that this action left, and gives the same
  outcome as on the list cut after strategy \<open>i\<close>. This holds for every list with such an
  index, so for every list of two or more strategies.
\<close>

theorem fallback_stops_at_first_resolving_strategy:
  "(i < length locators
    \<and> (\<forall>j<i. isl (wait_until_presence d
          (h @ map (\<lambda>l. UntilPresence l (wait_timeout pg (Some timeout))) (take j locators))
          (locators ! j) (wait_timeout pg (Some timeout))))
    \<and> wait_until_presence d
          (h @ map (\<lambda>l. UntilPresence l (wait_timeout pg (Some timeout))) (take i locators))
          (locators ! i) (wait_timeout pg (Some timeout)) = Inr el
    \<longrightarrow> find_element_with_fallback pg d locators timeout h
          = (Inr (Some el),
             h @ map (\<lambda>l. UntilPresence l (wait_timeout pg (Some timeout))) (take (Suc i) locators)))
   \<and> (i < length locators
    \<and> (\<forall>j<i. isl (fst (action_func (locators ! j)
          (foldl (after_failed_attempt action_func field_name) h (take j locators)))))
    \<and> fst (action_func (locators ! i)
          (foldl (after_failed_attempt action_func field_name) h (take i locators))) = Inr x
    \<longrightarrow> try_locators_with_action locators action_func field_name h
          = (Inr (), snd (action_func (locators ! i)
               (foldl (after_failed_attempt action_func field_name) h (take i locators))))
        \<and> try_locators_with_action locators action_func field_name h
          = try_locators_with_action (take (Suc i) locators) action_func field_name h)"
proof (intro conjI impI)
  assume "i < length locators
    \<and> (\<forall>j<i. isl (wait_until_presence d
          (h @ map (\<lambda>l. UntilPresence l (wait_timeout pg (Some timeout))) (take j locators))
          (locators ! j) (wait_timeout pg (Some timeout))))
    \<and> wait_until_presence d
          (h @ map (\<lambda>l. UntilPresence l (wait_timeout pg (Some timeout))) (take i locators))
          (locators ! i) (wait_timeout pg (Some timeout)) = Inr el"
  then show "find_element_with_fallback pg d locators timeout h
          = (Inr (Some el),
             h @ map (\<lambda>l. UntilPresence l (wait_timeout pg (Some timeout))) (take (Suc i) locators))"
    using find_fallback_first_success [of i locators d h pg timeout el] by blast
next
  assume a: "i < length locators
    \<and> (\<forall>j<i. isl (fst (action_func (locators ! j)
          (foldl (after_failed_attempt action_func field_name) h (take j locators)))))
    \<and> fst (action_func (locators ! i)
          (foldl (after_failed_attempt action_func field_name) h (take i locators))) = Inr x"
  then show whole: "try_locators_with_action locators action_func field_name h
          = (Inr (), snd (action_func (locators ! i)
               (foldl (after_failed_attempt action_func field_name) h (take i locators))))"
    using try_locators_first_success [of i locators action_func field_name h x] by blast
  have i': "i < length (take (Suc i) locators)" using a by simp
  have fails': "\<forall>j<i. isl (fst (action_func (take (Suc i) locators ! j)
          (foldl (after_failed_attempt action_func field_name) h (take j (take (Suc i) locators)))))"
    using a by (simp add: min_def)
  have ok': "fst (action_func (take (Suc i) locators ! i)
          (foldl (after_failed_attempt action_func field_name) h (take i (take (Suc i) locators)))) = Inr x"
    using a by (simp add: min_def)
  from try_locators_first_success [OF i' fails' ok'] whole
  show "try_locators_with_action locators action_func field_name h
          = try_locators_with_action (take (Suc i) locators) action_func field_name h"
    by (simp add: min_def)
qed

theorem fallback_stops_at_first_resolving_strategy_witness:
  "isl (wait_until_presence alt_email_page [] EMAIL_FIELD 3)
   \<and> wait_until_presence alt_email_page [UntilPresence EMAIL_FIELD 3] EMAIL_FIELD_ALT 3 = Inr 1
   \<and> find_element_with_fallback no_config_page alt_email_page
        [EMAIL_FIELD, EMAIL_FIELD_ALT, EMAIL_FIELD_TYPE] 3 []
        = (Inr (Some 1), [UntilPresence EMAIL_FIELD 3, UntilPresence EMAIL_FIELD_ALT 3])
   \<and> try_locators_with_action [EMAIL_FIELD, EMAIL_FIELD_ALT, EMAIL_FIELD_TYPE]
        (clear_element_with_locator no_config_page alt_email_page) ''Email field clear'' []
        = (Inr (), [UntilVisible EMAIL_FIELD 20,
                    Print (failed_action_line ''Email field clear'' EMAIL_FIELD TimeoutException),
                    UntilVisible EMAIL_FIELD_ALT 20, Clear 1])"
  using fallback_stops_at_first_resolving_strategy
    [of 1 "[EMAIL_FIELD, EMAIL_FIELD_ALT, EMAIL_FIELD_TYPE]" alt_email_page "[]" no_config_page 3 1
        "clear_element_with_locator no_config_page alt_email_page" "''Email field clear''" "()"]
  by (simp add: clear_element_with_locator_def find_visible_element_def after_failed_attempt_def
      io_defs Let_def)

text \<open>
  A list whose second strategy resolves to a field that cannot be cleared:
  \<open>_try_locators_with_action\<close> catches the exception of \<open>clear\<close> like a failed resolution and
  goes on to the third strategy.
\<close>

theorem fallback_action_failure_counterexample:
  "isl (wait_until_visible blocked_email_page [] EMAIL_FIELD_TYPE 20)
   \<and> wait_until_visible blocked_email_page
         [UntilVisible EMAIL_FIELD_TYPE 20,
          Print (failed_action_line ''Email field clear'' EMAIL_FIELD_TYPE TimeoutException)]
         EMAIL_FIELD 20 = Inr 1
   \<and> try_locators_with_action [EMAIL_FIELD_TYPE, EMAIL_FIELD, EMAIL_FIELD_ALT]
        (clear_element_with_locator no_config_page blocked_email_page) ''Email field clear'' []
        = (Inr (), [UntilVisible EMAIL_FIELD_TYPE 20,
                    Print (failed_action_line ''Email field clear'' EMAIL_FIELD_TYPE TimeoutException),
                    UntilVisible EMAIL_FIELD 20, Clear 1,
                    Print (failed_action_line ''Email field clear'' EMAIL_FIELD
                             ElementNotInteractableException),
                    UntilVisible EMAIL_FIELD_ALT 20, Clear 2])"
  by (simp add: blocked_email_page_def static_driver_def clear_element_with_locator_def
      find_visible_element_def io_defs Let_def)

text \<open>
  C2, as the code has it. When no strategy of the list resolves, every strategy is tried
  once, in order. \<open>find_element_with_fallback\<close> then returns \<open>None\<close> and raises nothing;
  \<open>_try_locators_with_action\<close> raises \<open>Exception\<close> with the message
  \<open>Could not find <field_name> with any of the available locators\<close>. Neither result carries
  the strategies tried or their failures; \<open>_try_locators_with_action\<close> prints each failure
  when it happens.
\<close>

theorem exhausted_fallback_results:
  "((\<forall>j<length locators. isl (wait_until_presence d
        (h @ map (\<lambda>l. UntilPresence l (wait_timeout pg (Some timeout))) (take j locators))
        (locators ! j) (wait_timeout pg (Some timeout))))
    \<longrightarrow> find_element_with_fallback pg d locators timeout h
          = (Inr None, h @ map (\<lambda>l. UntilPresence l (wait_timeout pg (Some timeout))) locators))
   \<and> ((\<forall>j<length locators. isl (fst (action_func (locators ! j)
          (foldl (after_failed_attempt action_func field_name) h (take j locators)))))
    \<longrightarrow> try_locators_with_action locators action_func field_name h
          = (Inl (Exception (''Could not find '' @ field_name @ '' with any of the available locators'')),
             foldl (after_failed_attempt action_func field_name) h locators))"
  using find_fallback_all_fail [of locators d h pg timeout]
    try_locators_all_fail [of locators action_func field_name h]
  by blast

theorem exhausted_fallback_results_witness:
  "isl (wait_until_presence alt_email_page [] EMAIL_FIELD 3)
   \<and> isl (wait_until_presence alt_email_page [UntilPresence EMAIL_FIELD 3] EMAIL_FIELD_TYPE 3)
   \<and> find_element_with_fallback no_config_page alt_email_page [EMAIL_FIELD, EMAIL_FIELD_TYPE] 3 []
        = (Inr None, [UntilPresence EMAIL_FIELD 3, UntilPresence EMAIL_FIELD_TYPE 3])
   \<and> try_locators_with_action [EMAIL_FIELD, EMAIL_FIELD_TYPE]
        (clear_element_with_locator no_config_page alt_email_page) ''Email field clear'' []
        = (Inl (Exception ''Could not find Email field clear with any of the available locators''),
           [UntilVisible EMAIL_FIELD 20,
            Print (failed_action_line ''Email field clear'' EMAIL_FIELD TimeoutException),
            UntilVisible EMAIL_FIELD_TYPE 20,
            Print (failed_action_line ''Email field clear'' EMAIL_FIELD_TYPE TimeoutException)])"
  using exhausted_fallback_results
    [of "[EMAIL_FIELD, EMAIL_FIELD_TYPE]" alt_email_page "[]" no_config_page 3
        "clear_element_with_locator no_config_page alt_email_page" "''Email field clear''"]
  by (simp add: clear_element_with_locator_def find_visible_element_def after_failed_attempt_def
      io_defs Let_def less_Suc_eq)

text \<open>
  On a page where neither of two strategies resolves, \<open>find_element_with_fallback\<close> returns
  \<open>None\<close>, and the exception of \<open>_try_locators_with_action\<close> is the same for two different
  locator lists: it does not tell which strategies were tried.
\<close>

theorem exhausted_fallback_counterexample:
  "find_element_with_fallback no_config_page alt_email_page [EMAIL_FIELD, EMAIL_FIELD_TYPE] 3 []
     = (Inr None, [UntilPresence EMAIL_FIELD 3, UntilPresence EMAIL_FIELD_TYPE 3])
   \<and> fst (try_locators_with_action [EMAIL_FIELD, EMAIL_FIELD_TYPE]
        (clear_element_with_locator no_config_page alt_email_page) ''Email field clear'' [])
     = Inl (Exception ''Could not find Email field clear with any of the available locators'')
   \<and> fst (try_locators_with_action [EMAIL_FIELD]
        (clear_element_with_locator no_config_page alt_email_page) ''Email field clear'' [])
     = Inl (Exception ''Could not find Email field clear with any of the available locators'')"
  by (simp add: find_element_def clear_element_with_locator_def find_visible_element_def
      io_defs Let_def)

subsection \<open>Click with retry\<close>

lemma stale_twice_page_sel [simp]:
  "wait_until_clickable stale_twice_page h l t = (if l = LOGIN_BUTTON then Inr 1 else Inl TimeoutException)"
  "element_click stale_twice_page h el
     = (if length (filter (\<lambda>ev. ev = Click el) h) < 2 then Inl StaleElementReferenceException else Inr ())"
  by (simp_all add: stale_twice_page_def static_driver_def)

lemma always_stale_page_sel [simp]:
  "element_click always_stale_page h el = Inl StaleElementReferenceException"
  by (simp add: always_stale_page_def static_driver_def)

lemma retries_Suc: "retries (Suc n) el = [Click el, Sleep 500] @ retries n el"
  by (simp add: retries_def)

lemma retries_0 [simp]: "retries 0 el = []"
  by (simp add: retries_def)

lemma click_attempts_stale:
  "element_click d h el = Inl StaleElementReferenceException \<Longrightarrow>
   click_attempts d el m (a # rest) h =
     (if a = m - 1 then (Inl StaleElementReferenceException, h @ [Click el])
      else click_attempts d el m rest (h @ [Click el, Sleep 500]))"
  by (simp add: io_defs)

lemma click_attempts_ok:
  "element_click d h el = Inr () \<Longrightarrow>
   click_attempts d el m (a # rest) h = (Inr (), h @ [Click el])"
  by (simp add: io_defs)

lemma click_attempts_then_success:
  "a + n < b \<Longrightarrow> b = nat m \<Longrightarrow>
   \<forall>k<n. element_click d (h @ retries k el) el = Inl StaleElementReferenceException \<Longrightarrow>
   element_click d (h @ retries n el) el = Inr () \<Longrightarrow>
   click_attempts d el m (map int [a..<b]) h = (Inr (), h @ retries n el @ [Click el])"
proof (induction n arbitrary: a h)
  case 0
  then have "[a..<b] = a # [Suc a..<b]" by (simp add: upt_conv_Cons)
  with 0 show ?case by (simp del: click_attempts.simps upt_Suc add: click_attempts_ok)
next
  case (Suc n)
  then have upt: "[a..<b] = a # [Suc a..<b]" by (simp add: upt_conv_Cons)
  from Suc.prems(3) have first: "element_click d h el = Inl StaleElementReferenceException"
    by (auto dest: spec [of _ 0])
  have not_last: "int a \<noteq> m - 1" using Suc.prems(1,2) by auto
  have fails: "\<forall>k<n. element_click d ((h @ [Click el, Sleep 500]) @ retries k el) el
      = Inl StaleElementReferenceException"
  proof (intro allI impI)
    fix k assume "k < n"
    then have "Suc k < Suc n" by simp
    with Suc.prems(3) have "element_click d (h @ retries (Suc k) el) el = Inl StaleElementReferenceException"
      by blast
    then show "element_click d ((h @ [Click el, Sleep 500]) @ retries k el) el
      = Inl StaleElementReferenceException"
      by (simp add: retries_Suc)
  qed
  have ok: "element_click d ((h @ [Click el, Sleep 500]) @ retries n el) el = Inr ()"
    using Suc.prems(4) by (simp add: retries_Suc)
  have "Suc a + n < b" using Suc.prems(1) by simp
  from Suc.IH [OF this Suc.prems(2) fails ok]
  show ?case using upt first not_last
    by (simp del: click_attempts.simps upt_Suc add: click_attempts_stale retries_Suc)
qed

lemma click_attempts_exhausted:
  "a + n + 1 = b \<Longrightarrow> b = nat m \<Longrightarrow>
   \<forall>k\<le>n. element_click d (h @ retries k el) el = Inl StaleElementReferenceException \<Longrightarrow>
   click_attempts d el m (map int [a..<b]) h
     = (Inl StaleElementReferenceException, h @ retries n el @ [Click el])"
proof (induction n arbitrary: a h)
  case 0
  then have upt: "[a..<b] = [a]" by (simp add: upt_conv_Cons)
  have last: "int a = m - 1" using 0 by auto
  from 0 have "element_click d h el = Inl StaleElementReferenceException" by simp
  then show ?case using upt last
    by (simp del: click_attempts.simps upt_Suc add: click_attempts_stale)
next
  case (Suc n)
  then have upt: "[a..<b] = a # [Suc a..<b]" by (simp add: upt_conv_Cons)
  from Suc.prems(3) have first: "element_click d h el = Inl StaleElementReferenceException"
    by (auto dest: spec [of _ 0])
  have not_last: "int a \<noteq> m - 1" using Suc.prems(1,2) by auto
  have fails: "\<forall>k\<le>n. element_click d ((h @ [Click el, Sleep 500]) @ retries k el) el
      = Inl StaleElementReferenceException"
  proof (intro allI impI)
    fix k assume "k \<le> n"
    then have "Suc k \<le> Suc n" by simp
    with Suc.prems(3) have "element_click d (h @ retries (Suc k) el) el = Inl StaleElementReferenceException"
      by blast
    then show "element_click d ((h @ [Click el, Sleep 500]) @ retries k el) el
      = Inl StaleElementReferenceException"
      by (simp add: retries_Suc)
  qed
  have "Suc a + n + 1 = b" using Suc.prems(1) by simp
  from Suc.IH [OF this Suc.prems(2) fails]
  show ?case using upt first not_last
    by (simp del: click_attempts.simps upt_Suc add: click_attempts_stale retries_Suc)
qed

text \<open>
  C3, as the code has it. \<open>_click_with_retry\<close> with \<open>max_attempts\<close> attempts: if the click
  raises the stale-reference exception on the first \<open>n < max_attempts\<close> attempts and then
  succeeds, the method returns normally; if it raises it on all \<open>max_attempts > 0\<close> attempts,
  the exception of the last attempt leaves the method. Every attempt clicks the element
  handle that was passed in, after a pause of half a second; the trace of a retry holds
  clicks and pauses only. For \<open>click_element\<close> (three attempts) the locator is resolved once,
  before the first click, and not again.
\<close>

theorem click_retry_same_element:
  "(n < nat max_attempts
    \<and> (\<forall>k<n. element_click d (h @ retries k element) element = Inl StaleElementReferenceException)
    \<and> element_click d (h @ retries n element) element = Inr ()
    \<longrightarrow> click_with_retry d element max_attempts h = (Inr (), h @ retries n element @ [Click element]))
   \<and> (0 < max_attempts
    \<and> (\<forall>k<nat max_attempts. element_click d (h @ retries k element) element
           = Inl StaleElementReferenceException)
    \<longrightarrow> click_with_retry d element max_attempts h
          = (Inl StaleElementReferenceException,
             h @ retries (nat max_attempts - 1) element @ [Click element]))
   \<and> (wait_until_clickable d h locator (wait_timeout pg timeout) = Inr element
    \<and> n < 3
    \<and> (\<forall>k<n. element_click d (h @ UntilClickable locator (wait_timeout pg timeout) # retries k element)
           element = Inl StaleElementReferenceException)
    \<and> element_click d (h @ UntilClickable locator (wait_timeout pg timeout) # retries n element)
           element = Inr ()
    \<longrightarrow> click_element pg d locator timeout h
          = (Inr (), h @ UntilClickable locator (wait_timeout pg timeout) # retries n element
                       @ [Click element]))"
proof (intro conjI impI)
  assume a: "n < nat max_attempts
    \<and> (\<forall>k<n. element_click d (h @ retries k element) element = Inl StaleElementReferenceException)
    \<and> element_click d (h @ retries n element) element = Inr ()"
  then have "0 + n < nat max_attempts" by simp
  from click_attempts_then_success [OF this refl, of d h element]  a
  show "click_with_retry d element max_attempts h = (Inr (), h @ retries n element @ [Click element])"
    by (simp add: click_with_retry_def py_range_def)
next
  assume a: "0 < max_attempts
    \<and> (\<forall>k<nat max_attempts. element_click d (h @ retries k element) element
           = Inl StaleElementReferenceException)"
  then have "0 + (nat max_attempts - 1) + 1 = nat max_attempts" by simp
  moreover have "\<forall>k\<le>nat max_attempts - 1. element_click d (h @ retries k element) element
           = Inl StaleElementReferenceException"
    using a by auto
  ultimately show "click_with_retry d element max_attempts h
          = (Inl StaleElementReferenceException,
             h @ retries (nat max_attempts - 1) element @ [Click element])"
    using click_attempts_exhausted [of 0 "nat max_attempts - 1" "nat max_attempts" max_attempts d h element]
    by (simp add: click_with_retry_def py_range_def)
next
  assume a: "wait_until_clickable d h locator (wait_timeout pg timeout) = Inr element
    \<and> n < 3
    \<and> (\<forall>k<n. element_click d (h @ UntilClickable locator (wait_timeout pg timeout) # retries k element)
           element = Inl StaleElementReferenceException)
    \<and> element_click d (h @ UntilClickable locator (wait_timeout pg timeout) # retries n element)
           element = Inr ()"
  then have "0 + n < nat 3" by simp
  from click_attempts_then_success [OF this refl, of d "h @ [UntilClickable locator (wait_timeout pg timeout)]" element] a
  show "click_element pg d locator timeout h
          = (Inr (), h @ UntilClickable locator (wait_timeout pg timeout) # retries n element
                       @ [Click element])"
    by (simp add: click_element_def find_clickable_element_def click_with_retry_def py_range_def
        io_defs Let_def)
qed

theorem click_retry_same_element_witness:
  "element_click stale_twice_page [] 1 = Inl StaleElementReferenceException
   \<and> element_click stale_twice_page [Click 1, Sleep 500] 1 = Inl StaleElementReferenceException
   \<and> element_click stale_twice_page [Click 1, Sleep 500, Click 1, Sleep 500] 1 = Inr ()
   \<and> click_with_retry stale_twice_page 1 3 []
        = (Inr (), [Click 1, Sleep 500, Click 1, Sleep 500, Click 1])
   \<and> click_with_retry always_stale_page 1 3 []
        = (Inl StaleElementReferenceException, [Click 1, Sleep 500, Click 1, Sleep 500, Click 1])
   \<and> click_element no_config_page stale_twice_page LOGIN_BUTTON None []
        = (Inr (), [UntilClickable LOGIN_BUTTON 20, Click 1, Sleep 500, Click 1, Sleep 500, Click 1])"
  using click_retry_same_element [of 2 3 stale_twice_page "[]" 1 LOGIN_BUTTON no_config_page None]
    click_retry_same_element [of 2 3 always_stale_page "[]" 1 LOGIN_BUTTON no_config_page None]
  by (simp add: retries_def less_Suc_eq numeral_2_eq_2 numeral_3_eq_3)

text \<open>
  An element that is stale for two clicks: \<open>click_element\<close> succeeds at the third click, and
  the only resolution in the whole trace is the one before the first click.
\<close>

theorem click_retry_counterexample:
  "click_element no_config_page stale_twice_page LOGIN_BUTTON None []
     = (Inr (), [UntilClickable LOGIN_BUTTON 20, Click 1, Sleep 500, Click 1, Sleep 500, Click 1])
   \<and> filter is_resolution
        (snd (click_element no_config_page stale_twice_page LOGIN_BUTTON None []))
      = [UntilClickable LOGIN_BUTTON 20]"
  by (simp add: click_element_def click_with_retry_def py_range_def find_clickable_element_def
      io_defs Let_def upt_rec numeral_3_eq_3)

subsection \<open>Redirect verification\<close>

lemma contains_iff: "contains sub s \<longleftrightarrow> (\<exists>pre post. s = pre @ sub @ post)"
proof (induction s)
  case Nil
  then show ?case by auto
next
  case (Cons c cs)
  show ?case
  proof
    assume "contains sub (c # cs)"
    then consider "prefix sub (c # cs)" | "contains sub cs" by auto
    then show "\<exists>pre post. c # cs = pre @ sub @ post"
    proof cases
      case 1
      then obtain post where "c # cs = sub @ post" by (auto simp: prefix_def)
      then have "c # cs = [] @ sub @ post" by simp
      then show ?thesis by blast
    next
      case 2
      with Cons.IH obtain pre post where "cs = pre @ sub @ post" by auto
      then have "c # cs = (c # pre) @ sub @ post" by simp
      then show ?thesis by blast
    qed
  next
    assume "\<exists>pre post. c # cs = pre @ sub @ post"
    then obtain pre post where eq: "c # cs = pre @ sub @ post" by auto
    show "contains sub (c # cs)"
    proof (cases pre)
      case Nil
      with eq have "prefix sub (c # cs)" by (simp add: prefix_def)
      then show ?thesis by simp
    next
      case (Cons p pre')
      with eq have "cs = pre' @ sub @ post" by simp
      with Cons.IH have "contains sub cs" by blast
      then show ?thesis by simp
    qed
  qed
qed

lemma contains_self: "contains s s"
proof -
  have "s = [] @ s @ []" by simp
  then show ?thesis unfolding contains_iff by blast
qed

lemma contains_empty: "contains [] s"
proof -
  have "s = [] @ [] @ s" by simp
  then show ?thesis unfolding contains_iff by blast
qed

lemma page_load_then_url:
  "wait_until_ready d h 10 = Inr () \<or> wait_until_ready d h 10 = Inl TimeoutException \<Longrightarrow>
   bind (wait_for_page_load pg d (Some 10)) (\<lambda>_. bind (get_current_url d) f) h
     = (case driver_current_url d (h @ [UntilReady 10]) of
          Inl e \<Rightarrow> (Inl e, h @ [UntilReady 10, CurrentUrl])
        | Inr u \<Rightarrow> f u (h @ [UntilReady 10, CurrentUrl]))"
  by (auto simp: wait_for_page_load_def get_current_url_def wait_timeout_def on_timeout_false_def
      io_defs Let_def split: sum.splits)

lemma redirect_url_message_carries:
  "contains path_fragment (redirect_url_message path_fragment current_path current_url)"
  "contains current_path (redirect_url_message path_fragment current_path current_url)"
proof -
  have "redirect_url_message path_fragment current_path current_url
      = (''Expected URL path to contain '' @ [CHR 0x22]) @ path_fragment
        @ ([CHR 0x22] @ '', but got path: '' @ current_path @ '' (full URL: '' @ current_url @ '')'')"
    by (simp add: redirect_url_message_def)
  then show "contains path_fragment (redirect_url_message path_fragment current_path current_url)"
    unfolding contains_iff by blast
  have "redirect_url_message path_fragment current_path current_url
      = (''Expected URL path to contain '' @ [CHR 0x22] @ path_fragment @ [CHR 0x22]
          @ '', but got path: '') @ current_path @ ('' (full URL: '' @ current_url @ '')'')"
    by (simp add: redirect_url_message_def)
  then show "contains current_path (redirect_url_message path_fragment current_path current_url)"
    unfolding contains_iff by blast
qed

lemma redirect_provider_message_carries:
  "contains expected_domain (redirect_provider_message expected_domain current_domain current_url)"
  "contains current_domain (redirect_provider_message expected_domain current_domain current_url)"
proof -
  have "redirect_provider_message expected_domain current_domain current_url
      = (''Expected to be redirected to domain '' @ [CHR 0x22]) @ expected_domain
        @ ([CHR 0x22] @ '', but got domain: '' @ current_domain @ '' (full URL: '' @ current_url @ '')'')"
    by (simp add: redirect_provider_message_def)
  then show "contains expected_domain
      (redirect_provider_message expected_domain current_domain current_url)"
    unfolding contains_iff by blast
  have "redirect_provider_message expected_domain current_domain current_url
      = (''Expected to be redirected to domain '' @ [CHR 0x22] @ expected_domain @ [CHR 0x22]
          @ '', but got domain: '') @ current_domain @ ('' (full URL: '' @ current_url @ '')'')"
    by (simp add: redirect_provider_message_def)
  then show "contains current_domain
      (redirect_provider_message expected_domain current_domain current_url)"
    unfolding contains_iff by blast
qed

lemma parse_dashboard_url:
  "urllib_urlparse ''https://app.example.com/home/dashboard?ref=x''
     = Inr \<lparr>scheme = ''https'', netloc = ''app.example.com'', path = ''/home/dashboard'',
            params = [], query = ''ref=x'', fragment = []\<rparr>"
  by code_simp

lemma parse_google_url:
  "urllib_urlparse ''https://accounts.google.com/oauth/authorize?client_id=1&state=xyz''
     = Inr \<lparr>scheme = ''https'', netloc = ''accounts.google.com'', path = ''/oauth/authorize'',
            params = [], query = ''client_id=1&state=xyz'', fragment = []\<rparr>"
  by code_simp

lemma parse_bare_host:
  "urllib_urlparse ''facebook.com''
     = Inr \<lparr>scheme = [], netloc = [], path = ''facebook.com'', params = [], query = [],
            fragment = []\<rparr>"
  by code_simp

lemma parse_provider_urls:
  "urllib_urlparse ''https://accounts.google.com''
     = Inr \<lparr>scheme = ''https'', netloc = ''accounts.google.com'', path = [], params = [],
            query = [], fragment = []\<rparr>"
  "urllib_urlparse ''https://www.facebook.com''
     = Inr \<lparr>scheme = ''https'', netloc = ''www.facebook.com'', path = [], params = [],
            query = [], fragment = []\<rparr>"
  by code_simp+

lemma dashboard_page_sel [simp]:
  "wait_until_ready dashboard_page h t = Inr ()"
  "driver_current_url dashboard_page h = Inr ''https://app.example.com/home/dashboard?ref=x''"
  by (simp_all add: dashboard_page_def static_driver_def)

lemma google_oauth_page_sel [simp]:
  "wait_until_ready google_oauth_page h t = Inr ()"
  "driver_current_url google_oauth_page h = Inr ''https://accounts.google.com/oauth/authorize?client_id=1&state=xyz''"
  by (simp_all add: google_oauth_page_def static_driver_def)

lemma lower_examples:
  "lower ''home'' = ''home''" "lower ''settings'' = ''settings''"
  "lower ''/home/dashboard'' = ''/home/dashboard''"
  "lower ''accounts.google.com'' = ''accounts.google.com''"
  "lower ''www.facebook.com'' = ''www.facebook.com''"
  "lower [] = []"
  by code_simp+

lemma contains_examples:
  "contains ''home'' ''/home/dashboard''"
  "\<not> contains ''settings'' ''/home/dashboard''"
  "contains ''accounts.google.com'' ''accounts.google.com''"
  "\<not> contains ''www.facebook.com'' ''accounts.google.com''"
  by code_simp+

lemma strip_quotes_examples:
  "strip_quotes ''https://accounts.google.com'' = ''https://accounts.google.com''"
  "strip_quotes ''https://www.facebook.com'' = ''https://www.facebook.com''"
  "strip_quotes ''facebook.com'' = ''facebook.com''"
  by code_simp+

text \<open>
  C5. Let the page-load wait return or time out, let the session give the current URL and
  let \<open>urlparse\<close> return its components. Then \<open>verify_redirect_url\<close> returns normally if and
  only if the lowercased path component contains the lowercased expected fragment; nothing
  else of the URL enters the decision, so the query string and the fragment after \<open>#\<close> cannot
  change it. Otherwise it raises \<open>AssertionError\<close>, and the message contains the expected
  fragment and the lowercased path that was found.
\<close>

theorem redirect_url_compares_path:
  "(wait_until_ready d h 10 = Inr () \<or> wait_until_ready d h 10 = Inl TimeoutException)
   \<and> driver_current_url d (h @ [UntilReady 10]) = Inr current_url
   \<and> urlparse current_url = Inr parsed
   \<longrightarrow> (fst (verify_redirect_url pg d urlparse path_fragment h) = Inr ()
          \<longleftrightarrow> contains (lower path_fragment) (lower (path parsed)))
       \<and> (\<not> contains (lower path_fragment) (lower (path parsed))
          \<longrightarrow> fst (verify_redirect_url pg d urlparse path_fragment h)
              = Inl (AssertionError
                  (redirect_url_message path_fragment (lower (path parsed)) current_url))
            \<and> contains path_fragment
                  (redirect_url_message path_fragment (lower (path parsed)) current_url)
            \<and> contains (lower (path parsed))
                  (redirect_url_message path_fragment (lower (path parsed)) current_url))"
  by (simp add: verify_redirect_url_def page_load_then_url)
     (simp add: io_defs Let_def redirect_url_message_carries)

text \<open>The example of the specification: the path \<open>/home/dashboard\<close> with a query string.\<close>

theorem redirect_url_compares_path_witness:
  "wait_until_ready dashboard_page [] 10 = Inr ()
   \<and> driver_current_url dashboard_page [UntilReady 10] = Inr ''https://app.example.com/home/dashboard?ref=x''
   \<and> urllib_urlparse ''https://app.example.com/home/dashboard?ref=x''
       = Inr \<lparr>scheme = ''https'', netloc = ''app.example.com'', path = ''/home/dashboard'',
              params = [], query = ''ref=x'', fragment = []\<rparr>
   \<and> fst (verify_redirect_url no_config_page dashboard_page urllib_urlparse ''home'' []) = Inr ()
   \<and> fst (verify_redirect_url no_config_page dashboard_page urllib_urlparse ''settings'' [])
       = Inl (AssertionError (redirect_url_message ''settings'' ''/home/dashboard''
                ''https://app.example.com/home/dashboard?ref=x''))"
  using redirect_url_compares_path [of dashboard_page "[]" "''https://app.example.com/home/dashboard?ref=x''"
      urllib_urlparse
      "\<lparr>scheme = ''https'', netloc = ''app.example.com'', path = ''/home/dashboard'',
              params = [], query = ''ref=x'', fragment = []\<rparr>" no_config_page "''home''"]
    redirect_url_compares_path [of dashboard_page "[]" "''https://app.example.com/home/dashboard?ref=x''"
      urllib_urlparse
      "\<lparr>scheme = ''https'', netloc = ''app.example.com'', path = ''/home/dashboard'',
              params = [], query = ''ref=x'', fragment = []\<rparr>" no_config_page "''settings''"]
  by (simp add: parse_dashboard_url lower_examples contains_examples)

text \<open>
  C6, as the code has it. The expected value is a URL: after stripping quotes it is parsed
  like the current URL, and the expected host is its network location. Under the same
  conditions as for C5, \<open>verify_redirect_to_provider\<close> returns normally if and only if the
  lowercased expected network location is contained in the lowercased network location of
  the current URL (equality is a case of containment); paths and query strings do not enter
  the decision. Otherwise it raises \<open>AssertionError\<close> with a message that contains both
  domains. When the expected value has no network location, as a bare host name has none,
  the verification always succeeds.
\<close>

theorem provider_redirect_compares_netloc:
  "(wait_until_ready d h 10 = Inr () \<or> wait_until_ready d h 10 = Inl TimeoutException)
   \<and> driver_current_url d (h @ [UntilReady 10]) = Inr current_url
   \<and> urlparse current_url = Inr current_parsed
   \<and> urlparse (strip_quotes expected_url) = Inr expected_parsed
   \<longrightarrow> (fst (verify_redirect_to_provider pg d urlparse expected_url h) = Inr ()
          \<longleftrightarrow> contains (lower (netloc expected_parsed)) (lower (netloc current_parsed)))
       \<and> (\<not> contains (lower (netloc expected_parsed)) (lower (netloc current_parsed))
          \<longrightarrow> fst (verify_redirect_to_provider pg d urlparse expected_url h)
              = Inl (AssertionError
                  (redirect_provider_message (lower (netloc expected_parsed))
                     (lower (netloc current_parsed)) current_url))
            \<and> contains (lower (netloc expected_parsed))
                  (redirect_provider_message (lower (netloc expected_parsed))
                     (lower (netloc current_parsed)) current_url)
            \<and> contains (lower (netloc current_parsed))
                  (redirect_provider_message (lower (netloc expected_parsed))
                     (lower (netloc current_parsed)) current_url))
       \<and> (netloc expected_parsed = []
          \<longrightarrow> fst (verify_redirect_to_provider pg d urlparse expected_url h) = Inr ())"
  by (simp add: verify_redirect_to_provider_def page_load_then_url)
     (auto simp: io_defs Let_def contains_self contains_empty lower_def
        redirect_provider_message_carries)

theorem provider_redirect_compares_netloc_witness:
  "wait_until_ready google_oauth_page [] 10 = Inr ()
   \<and> driver_current_url google_oauth_page [UntilReady 10]
       = Inr ''https://accounts.google.com/oauth/authorize?client_id=1&state=xyz''
   \<and> urllib_urlparse ''https://accounts.google.com/oauth/authorize?client_id=1&state=xyz''
       = Inr \<lparr>scheme = ''https'', netloc = ''accounts.google.com'', path = ''/oauth/authorize'',
              params = [], query = ''client_id=1&state=xyz'', fragment = []\<rparr>
   \<and> urllib_urlparse (strip_quotes ''https://www.facebook.com'')
       = Inr \<lparr>scheme = ''https'', netloc = ''www.facebook.com'', path = [], params = [],
              query = [], fragment = []\<rparr>
   \<and> fst (verify_redirect_to_provider no_config_page google_oauth_page urllib_urlparse
             ''https://accounts.google.com'' []) = Inr ()
   \<and> fst (verify_redirect_to_provider no_config_page google_oauth_page urllib_urlparse
             ''https://www.facebook.com'' [])
       = Inl (AssertionError (redirect_provider_message ''www.facebook.com'' ''accounts.google.com''
                ''https://accounts.google.com/oauth/authorize?client_id=1&state=xyz''))
   \<and> netloc \<lparr>scheme = [], netloc = [], path = ''facebook.com'', params = [], query = [],
              fragment = []\<rparr> = []
   \<and> fst (verify_redirect_to_provider no_config_page google_oauth_page urllib_urlparse
             ''facebook.com'' []) = Inr ()"
  using provider_redirect_compares_netloc [of google_oauth_page "[]"
      "''https://accounts.google.com/oauth/authorize?client_id=1&state=xyz''" urllib_urlparse
      "\<lparr>scheme = ''https'', netloc = ''accounts.google.com'', path = ''/oauth/authorize'',
            params = [], query = ''client_id=1&state=xyz'', fragment = []\<rparr>"
      "''https://accounts.google.com''"
      "\<lparr>scheme = ''https'', netloc = ''accounts.google.com'', path = [], params = [],
            query = [], fragment = []\<rparr>" no_config_page]
    provider_redirect_compares_netloc [of google_oauth_page "[]"
      "''https://accounts.google.com/oauth/authorize?client_id=1&state=xyz''" urllib_urlparse
      "\<lparr>scheme = ''https'', netloc = ''accounts.google.com'', path = ''/oauth/authorize'',
            params = [], query = ''client_id=1&state=xyz'', fragment = []\<rparr>"
      "''https://www.facebook.com''"
      "\<lparr>scheme = ''https'', netloc = ''www.facebook.com'', path = [], params = [],
            query = [], fragment = []\<rparr>" no_config_page]
    provider_redirect_compares_netloc [of google_oauth_page "[]"
      "''https://accounts.google.com/oauth/authorize?client_id=1&state=xyz''" urllib_urlparse
      "\<lparr>scheme = ''https'', netloc = ''accounts.google.com'', path = ''/oauth/authorize'',
            params = [], query = ''client_id=1&state=xyz'', fragment = []\<rparr>"
      "''facebook.com''"
      "\<lparr>scheme = [], netloc = [], path = ''facebook.com'', params = [], query = [],
            fragment = []\<rparr>" no_config_page]
  by (simp add: parse_google_url parse_provider_urls parse_bare_host strip_quotes_examples
      lower_examples contains_examples)

text \<open>
  The example of the specification: the browser is on \<open>accounts.google.com\<close> and the expected
  provider is given as \<open>facebook.com\<close>. The bare host parses to an empty network location,
  and the verification succeeds.
\<close>

theorem provider_redirect_bare_host_counterexample:
  "fst (verify_redirect_to_provider no_config_page google_oauth_page urllib_urlparse
          ''facebook.com'' []) = Inr ()
   \<and> urllib_urlparse ''https://accounts.google.com/oauth/authorize?client_id=1&state=xyz''
       = Inr \<lparr>scheme = ''https'', netloc = ''accounts.google.com'', path = ''/oauth/authorize'',
              params = [], query = ''client_id=1&state=xyz'', fragment = []\<rparr>
   \<and> urllib_urlparse ''facebook.com''
       = Inr \<lparr>scheme = [], netloc = [], path = ''facebook.com'', params = [], query = [],
              fragment = []\<rparr>"
  by (simp add: verify_redirect_to_provider_def page_load_then_url)
     (simp add: parse_google_url parse_bare_host strip_quotes_examples lower_examples io_defs)

subsection \<open>Scenario cleanup\<close>

lemma ctx_driver_bump [simp]:
  "ctx_driver (bump_passed ctx) = ctx_driver ctx"
  "ctx_driver (bump_failed ctx) = ctx_driver ctx"
  "ctx_driver (bump_skipped ctx) = ctx_driver ctx"
  by (simp_all add: bump_passed_def bump_failed_def bump_skipped_def)

lemma after_scenario_result:
  "fst (after_scenario ctx sc now h) = Inr ((status_bump (scenario_status sc) ctx)\<lparr>scenario_data := None\<rparr>)"
  by (simp add: after_scenario_def take_failure_screenshot_def status_bump_def io_defs Let_def
      split: option.splits sum.splits prod.splits)

lemma crashing_quit_page_sel [simp]:
  "driver_quit crashing_quit_page h = Inl WebDriverException"
  "driver_save_screenshot crashing_quit_page h f = Inr True"
  by (simp_all add: crashing_quit_page_def static_driver_def)

lemma screenshot_path_example:
  "screenshot_path ''Invalid password'' 1700000000 = ''reports/failure_Invalid_password_1700000000.png''"
proof -
  have "digits 1700000000 = ''1700000000''"
    by (simp add: digits.simps)
  then show ?thesis
    by (simp add: screenshot_path_def str_int_def)
qed

text \<open>
  C8. \<open>after_scenario\<close> returns normally for every context, scenario, status and session: the
  exceptions of the screenshot and of \<open>driver.quit()\<close> are caught and printed. With a driver in
  the context its trace is, in this order: for the status \<open>failed\<close> the screenshot (and the
  printed failure if taking it raised), then for every status \<open>quit\<close> (and the printed error
  if it raised). Without a driver nothing is called. \<open>DriverManager.quit_driver\<close> likewise
  never raises, prints the error of \<open>quit\<close> and leaves the manager without driver.
\<close>

theorem cleanup_captures_then_quits_and_never_raises:
  "fst (after_scenario ctx sc now h)
     = Inr ((status_bump (scenario_status sc) ctx)\<lparr>scenario_data := None\<rparr>)
   \<and> (ctx_driver ctx = Some drv \<longrightarrow>
        snd (after_scenario ctx sc now h)
          = (let shot = screenshot_path (scenario_name sc) now;
                 h1 = (if scenario_status sc = ''failed''
                       then h @ SaveScreenshot shot #
                              (case driver_save_screenshot drv h shot of
                                 Inl e \<Rightarrow> [Print [Lit ''Failed to take screenshot: '', Exn e]]
                               | Inr saved \<Rightarrow> [])
                       else h)
             in h1 @ Quit # (case driver_quit drv h1 of
                               Inl e \<Rightarrow> [Print [Lit ''Error closing driver: '', Exn e]]
                             | Inr u \<Rightarrow> [])))
   \<and> (ctx_driver ctx = None \<longrightarrow> snd (after_scenario ctx sc now h) = h)
   \<and> fst (quit_driver dm h) = Inr (dm\<lparr>dm_driver := None\<rparr>)
   \<and> (dm_driver dm = Some drv \<longrightarrow>
        snd (quit_driver dm h)
          = h @ Quit # (case driver_quit drv h of
                          Inl e \<Rightarrow> [Print [Lit ''Error quitting driver: '', Exn e]]
                        | Inr u \<Rightarrow> []))"
proof (intro conjI impI)
  show "fst (after_scenario ctx sc now h)
     = Inr ((status_bump (scenario_status sc) ctx)\<lparr>scenario_data := None\<rparr>)"
    by (rule after_scenario_result)
next
  assume "ctx_driver ctx = Some drv"
  then show "snd (after_scenario ctx sc now h)
          = (let shot = screenshot_path (scenario_name sc) now;
                 h1 = (if scenario_status sc = ''failed''
                       then h @ SaveScreenshot shot #
                              (case driver_save_screenshot drv h shot of
                                 Inl e \<Rightarrow> [Print [Lit ''Failed to take screenshot: '', Exn e]]
                               | Inr saved \<Rightarrow> [])
                       else h)
             in h1 @ Quit # (case driver_quit drv h1 of
                               Inl e \<Rightarrow> [Print [Lit ''Error closing driver: '', Exn e]]
                             | Inr u \<Rightarrow> []))"
    by (simp add: after_scenario_def take_failure_screenshot_def io_defs Let_def
        split: sum.splits)
next
  assume "ctx_driver ctx = None"
  then show "snd (after_scenario ctx sc now h) = h"
    by (simp add: after_scenario_def take_failure_screenshot_def io_defs)
next
  show "fst (quit_driver dm h) = Inr (dm\<lparr>dm_driver := None\<rparr>)"
    by (simp add: quit_driver_def io_defs split: option.splits sum.splits)
next
  assume "dm_driver dm = Some drv"
  then show "snd (quit_driver dm h)
          = h @ Quit # (case driver_quit drv h of
                          Inl e \<Rightarrow> [Print [Lit ''Error quitting driver: '', Exn e]]
                        | Inr u \<Rightarrow> [])"
    by (simp add: quit_driver_def io_defs split: sum.splits)
qed

text \<open>A failed scenario on a browser whose \<open>quit\<close> raises.\<close>

theorem cleanup_captures_then_quits_and_never_raises_witness:
  "ctx_driver ((before_all None)\<lparr>ctx_driver := Some crashing_quit_page\<rparr>) = Some crashing_quit_page
   \<and> dm_driver \<lparr>dm_driver = Some crashing_quit_page\<rparr> = Some crashing_quit_page
   \<and> ctx_driver (before_all None) = None
   \<and> snd (after_scenario ((before_all None)\<lparr>ctx_driver := Some crashing_quit_page\<rparr>)
             \<lparr>scenario_name = ''Invalid password'', scenario_status = ''failed''\<rparr> 1700000000 [])
       = [SaveScreenshot ''reports/failure_Invalid_password_1700000000.png'', Quit,
          Print [Lit ''Error closing driver: '', Exn WebDriverException]]
   \<and> snd (after_scenario (before_all None)
             \<lparr>scenario_name = ''Invalid password'', scenario_status = ''failed''\<rparr> 1700000000 []) = []
   \<and> quit_driver \<lparr>dm_driver = Some crashing_quit_page\<rparr> []
       = (Inr \<lparr>dm_driver = None\<rparr>, [Quit, Print [Lit ''Error quitting driver: '', Exn WebDriverException]])"
  using cleanup_captures_then_quits_and_never_raises
      [of "(before_all None)\<lparr>ctx_driver := Some crashing_quit_page\<rparr>"
          "\<lparr>scenario_name = ''Invalid password'', scenario_status = ''failed''\<rparr>" 1700000000 "[]"
          crashing_quit_page "\<lparr>dm_driver = Some crashing_quit_page\<rparr>"]
    cleanup_captures_then_quits_and_never_raises
      [of "before_all None"
          "\<lparr>scenario_name = ''Invalid password'', scenario_status = ''failed''\<rparr>" 1700000000 "[]"
          crashing_quit_page "\<lparr>dm_driver = Some crashing_quit_page\<rparr>"]
  by (simp add: screenshot_path_example before_all_def Let_def prod_eq_iff)

subsection \<open>Metrics\<close>

text \<open>
  What holds of the counters on every run: \<open>after_scenario\<close> increments exactly one of
  passed, failed and skipped and leaves the total alone; \<open>before_scenario\<close> increments the
  total when it has a driver and returns. The run of the specification, three scenarios of
  which the second fails, gives 3, 2, 1, 0 and 66.67 percent.
\<close>

lemma after_scenario_counts_one:
  "fst (after_scenario ctx sc now h) = Inr ctx' \<Longrightarrow>
   total_tests (test_metrics ctx') = total_tests (test_metrics ctx)
   \<and> passed_tests (test_metrics ctx') + failed_tests (test_metrics ctx') + skipped_tests (test_metrics ctx')
       = passed_tests (test_metrics ctx) + failed_tests (test_metrics ctx) + skipped_tests (test_metrics ctx) + 1
   \<and> passed_tests (test_metrics ctx') \<ge> passed_tests (test_metrics ctx)
   \<and> failed_tests (test_metrics ctx') \<ge> failed_tests (test_metrics ctx)
   \<and> skipped_tests (test_metrics ctx') \<ge> skipped_tests (test_metrics ctx)"
  by (auto simp: after_scenario_result status_bump_def bump_passed_def bump_failed_def bump_skipped_def)

lemma before_scenario_import_error:
  "before_scenario ctx (Inl ImportError) headless h = (Inr (ctx\<lparr>ctx_driver := None\<rparr>), h)"
  by (simp add: before_scenario_def io_defs)

lemma before_scenario_counts_total:
  "fst (before_scenario ctx (Inr drv) headless h) = Inr ctx' \<Longrightarrow>
   total_tests (test_metrics ctx') = total_tests (test_metrics ctx) + 1"
  by (auto simp: before_scenario_def io_defs Let_def split: sum.splits prod.splits if_splits)

lemma blank_page_sel [simp]:
  "driver_implicitly_wait blank_page h t = Inr ()"
  "driver_maximize_window blank_page h = Inr ()"
  "driver_save_screenshot blank_page h f = Inr True"
  "driver_quit blank_page h = Inr ()"
  by (simp_all add: blank_page_def static_driver_def)

lemma pass_rate_two_of_three: "pass_rate_2f 2 3 = 6667"
  by (simp add: pass_rate_2f_def nearest_double_def round_half_even_def bit_length.simps Let_def)

lemma second_fails_summary:
  "map_sum id after_all (fst (run_scenarios (before_all None) second_fails_run []))
     = Inr \<lparr>summary_total = 3, summary_passed = 2, summary_failed = 1, summary_skipped = 0,
            summary_pass_rate = Some 6667\<rparr>"
  by (simp add: second_fails_run_def scenario_run_def run_scenario_def before_scenario_def
      after_scenario_def take_failure_screenshot_def before_all_def bump_failed_def bump_passed_def
      after_all_def pass_rate_two_of_three io_defs Let_def)

text \<open>
  C7 at a run in which \<open>before_scenario\<close> cannot import the driver modules: it catches
  \<open>ImportError\<close>, sets the driver to \<open>None\<close> and returns before the line that counts the
  scenario. The three scenarios fail and are counted as failed, the total stays 0 and no
  pass rate is printed.
\<close>

theorem import_failure_leaves_total_behind:
  "map_sum id after_all (fst (run_scenarios (before_all None) import_failure_run []))
     = Inr \<lparr>summary_total = 0, summary_passed = 0, summary_failed = 3, summary_skipped = 0,
            summary_pass_rate = None\<rparr>"
  by (simp add: import_failure_run_def scenario_run_def run_scenario_def before_scenario_import_error
      after_scenario_def take_failure_screenshot_def before_all_def bump_failed_def after_all_def
      io_defs)

subsection \<open>Error message retrieval\<close>

lemma bind_fst: "fst (m h) = Inr x \<Longrightarrow> bind m f h = f x (snd (m h))"
  by (cases "m h") (simp add: bind_def)

lemma bind_fst_raise: "fst (m h) = Inl e \<Longrightarrow> fst (bind m f h) = Inl e"
  by (cases "m h") (simp add: bind_def)

lemma first_text_Cons:
  "first_text f (x # xs) = (if f x \<noteq> [] then f x else first_text f xs)"
  by (simp add: first_text_def)

lemma first_text_Nil [simp]: "first_text f [] = []"
  by (simp add: first_text_def)

lemma first_text_append:
  "first_text f (xs @ ys) = (if first_text f xs \<noteq> [] then first_text f xs else first_text f ys)"
  by (induction xs) (simp_all add: first_text_Cons)

lemma find_error_in_static:
  assumes hvis: "\<And>h' l t. wait_until_visible d h' l t = vis l"
    and htxt: "\<And>h' el. element_text d h' el = Inr (txt el)"
  shows "fst (find_error_in pg d timeout locs h) = Inr (first_text (located_text vis txt) locs)"
proof (induction locs arbitrary: h)
  case Nil
  then show ?case by (simp add: return_def)
next
  case (Cons l ls)
  show ?case
  proof (cases "vis l")
    case (Inl e)
    then have "find_error_in pg d timeout (l # ls) h
      = find_error_in pg d timeout ls
          (h @ [UntilVisible l (wait_timeout pg (Some timeout)),
                Print [Lit ''No error found with locator '', Loc l, Lit '': '', Exn e]])"
      by (simp add: find_visible_element_def hvis io_defs Let_def)
    with Cons.IH Inl show ?thesis
      by (simp add: first_text_Cons located_text_def)
  next
    case (Inr el)
    show ?thesis
    proof (cases "strip (txt el) = []")
      case True
      with Inr have "find_error_in pg d timeout (l # ls) h
        = find_error_in pg d timeout ls
            (h @ [UntilVisible l (wait_timeout pg (Some timeout)), GetText el])"
        by (simp add: find_visible_element_def hvis htxt io_defs Let_def)
      with Cons.IH Inr True show ?thesis
        by (simp add: first_text_Cons located_text_def)
    next
      case False
      with Inr have "fst (find_error_in pg d timeout (l # ls) h) = Inr (strip (txt el))"
        by (simp add: find_visible_element_def hvis htxt io_defs Let_def)
      with Inr False show ?thesis
        by (simp add: first_text_Cons located_text_def)
    qed
  qed
qed

lemma scan_elements_static:
  assumes htxt: "\<And>h' el. element_text d h' el = Inr (txt el)"
    and hshown: "\<And>h' el. element_is_displayed d h' el = Inr (shown el)"
  shows "fst (scan_elements d els h)
     = Inr (if first_text (shown_text shown txt) els \<noteq> []
            then Some (first_text (shown_text shown txt) els) else None)"
proof (induction els arbitrary: h)
  case Nil
  then show ?case by (simp add: return_def)
next
  case (Cons el els)
  show ?case
  proof (cases "shown el \<and> strip (txt el) \<noteq> []")
    case True
    then have "fst (scan_elements d (el # els) h) = Inr (Some (strip (txt el)))"
      by (simp add: htxt hshown io_defs)
    moreover from True have "shown_text shown txt el = strip (txt el)"
      by (simp add: shown_text_def)
    ultimately show ?thesis using True
      by (simp add: first_text_Cons del: scan_elements.simps)
  next
    case False
    then have "scan_elements d (el # els) h = scan_elements d els (h @ [IsDisplayed el])
      \<or> scan_elements d (el # els) h = scan_elements d els (h @ [IsDisplayed el, GetText el])"
      by (auto simp: htxt hshown io_defs)
    moreover from False have "shown_text shown txt el = []"
      by (auto simp: shown_text_def)
    ultimately show ?thesis using Cons.IH
      by (auto simp: first_text_Cons simp del: scan_elements.simps)
  qed
qed

lemma scan_patterns_static:
  assumes htxt: "\<And>h' el. element_text d h' el = Inr (txt el)"
    and hshown: "\<And>h' el. element_is_displayed d h' el = Inr (shown el)"
    and present: "\<And>h' p. p \<in> set ps \<Longrightarrow> isl (wait_until_presence d h' (pattern_xpath p) (default_wait pg)) = False"
    and elems: "\<And>h' p. p \<in> set ps \<Longrightarrow> driver_find_elements d h' (pattern_xpath p) = Inr (elems p)"
  shows "fst (scan_patterns pg d ps h)
     = Inr (if first_text (shown_text shown txt) (concat (map elems ps)) \<noteq> []
            then Some (first_text (shown_text shown txt) (concat (map elems ps))) else None)"
  using present elems
proof (induction ps arbitrary: h)
  case Nil
  then show ?case by (simp add: return_def)
next
  case (Cons p ps)
  obtain el where el: "wait_until_presence d h (pattern_xpath p) (default_wait pg) = Inr el"
    using Cons.prems(1) [of p h] by (cases "wait_until_presence d h (pattern_xpath p) (default_wait pg)") auto
  have fe: "find_elements pg d (pattern_xpath p) None h
      = (Inr (elems p), h @ [UntilPresence (pattern_xpath p) (default_wait pg), FindElements (pattern_xpath p)])"
    using el Cons.prems(2) [of p] by (simp add: find_elements_def wait_timeout_def io_defs Let_def)
  let ?h1 = "h @ [UntilPresence (pattern_xpath p) (default_wait pg), FindElements (pattern_xpath p)]"
  have se: "fst (scan_elements d (elems p) ?h1)
     = Inr (if first_text (shown_text shown txt) (elems p) \<noteq> []
            then Some (first_text (shown_text shown txt) (elems p)) else None)"
    by (rule scan_elements_static [OF htxt hshown])
  have IH: "fst (scan_patterns pg d ps h')
     = Inr (if first_text (shown_text shown txt) (concat (map elems ps)) \<noteq> []
            then Some (first_text (shown_text shown txt) (concat (map elems ps))) else None)" for h'
    using Cons.IH Cons.prems by simp
  show ?case
  proof (cases "first_text (shown_text shown txt) (elems p) = []")
    case True
    with se have "fst (scan_elements d (elems p) ?h1) = Inr None" by simp
    then have "scan_patterns pg d (p # ps) h = scan_patterns pg d ps (snd (scan_elements d (elems p) ?h1))"
      by (simp add: fe bind_fst [of "find_elements pg d (pattern_xpath p) None" h] bind_fst [of "scan_elements d (elems p)" ?h1])
    with IH True show ?thesis by (simp add: first_text_append)
  next
    case False
    with se have "fst (scan_elements d (elems p) ?h1) = Inr (Some (first_text (shown_text shown txt) (elems p)))"
      by simp
    then have "fst (scan_patterns pg d (p # ps) h) = Inr (Some (first_text (shown_text shown txt) (elems p)))"
      by (simp add: fe bind_fst [of "find_elements pg d (pattern_xpath p) None" h] bind_fst [of "scan_elements d (elems p)" ?h1] return_def)
    with False show ?thesis by (simp add: first_text_append)
  qed
qed

lemma first_text_empty: "(\<And>x. x \<in> set xs \<Longrightarrow> f x = []) \<Longrightarrow> first_text f xs = []"
  by (induction xs) (simp_all add: first_text_Cons)

lemma find_elements_result:
  "find_elements pg d l None h = (Inr els, h') \<Longrightarrow>
   driver_find_elements d (h @ [UntilPresence l (default_wait pg)]) l = Inr els"
  by (auto simp: find_elements_def wait_timeout_def io_defs Let_def split: sum.splits)

lemma scan_patterns_nothing:
  assumes htxt: "\<And>h' el. element_text d h' el = Inr (txt el)"
    and hshown: "\<And>h' el. element_is_displayed d h' el = Inr (shown el)"
    and none: "\<And>h' p els el. driver_find_elements d h' (pattern_xpath p) = Inr els \<Longrightarrow>
                 el \<in> set els \<Longrightarrow> shown_text shown txt el = []"
  shows "fst (scan_patterns pg d ps h) = Inr None \<or> isl (fst (scan_patterns pg d ps h))"
proof (induction ps arbitrary: h)
  case Nil
  then show ?case by (simp add: return_def)
next
  case (Cons p ps)
  obtain r h1 where fe: "find_elements pg d (pattern_xpath p) None h = (r, h1)"
    by (cases "find_elements pg d (pattern_xpath p) None h")
  show ?case
  proof (cases r)
    case (Inl e)
    with fe have "fst (scan_patterns pg d (p # ps) h) = Inl e"
      by (simp add: bind_fst_raise)
    then show ?thesis by simp
  next
    case (Inr els)
    with fe have "driver_find_elements d (h @ [UntilPresence (pattern_xpath p) (default_wait pg)])
        (pattern_xpath p) = Inr els"
      by (simp add: find_elements_result)
    then have "first_text (shown_text shown txt) els = []"
      using none by (intro first_text_empty) blast
    then have "fst (scan_elements d els h1) = Inr None"
      by (simp add: scan_elements_static [OF htxt hshown])
    with fe Inr have "scan_patterns pg d (p # ps) h
        = scan_patterns pg d ps (snd (scan_elements d els h1))"
      by (simp add: bind_fst [of "find_elements pg d (pattern_xpath p) None" h]
          bind_fst [of "scan_elements d els" h1])
    with Cons.IH show ?thesis by simp
  qed
qed

lemma scan_patterns_prefix:
  "fst (scan_patterns pg d xs h) = Inr (Some m) \<Longrightarrow>
   fst (scan_patterns pg d (xs @ ys) h) = Inr (Some m)"
proof (induction xs arbitrary: h)
  case Nil
  then show ?case by (simp add: return_def)
next
  case (Cons p xs)
  obtain r h1 where fe: "find_elements pg d (pattern_xpath p) None h = (r, h1)"
    by (cases "find_elements pg d (pattern_xpath p) None h")
  show ?case
  proof (cases r)
    case (Inl e)
    with fe Cons.prems show ?thesis by (simp add: bind_def)
  next
    case (Inr els)
    obtain r2 h2 where se: "scan_elements d els h1 = (r2, h2)"
      by (cases "scan_elements d els h1")
    show ?thesis
    proof (cases r2)
      case (Inl e)
      with fe Inr se Cons.prems show ?thesis by (simp add: bind_def)
    next
      case r2: (Inr found)
      show ?thesis
      proof (cases found)
        case None
        with fe Inr se r2 Cons.prems have "fst (scan_patterns pg d xs h2) = Inr (Some m)"
          by (simp add: bind_def)
        then have "fst (scan_patterns pg d (xs @ ys) h2) = Inr (Some m)"
          by (rule Cons.IH)
        with fe Inr se r2 None show ?thesis by (simp add: bind_def)
      next
        case (Some m')
        with fe Inr se r2 Cons.prems show ?thesis by (simp add: bind_def return_def)
      qed
    qed
  qed
qed

lemma scan_patterns_first_match:
  assumes ht: "\<And>h' el. element_text d h' el = Inr (txt el)"
    and hs: "\<And>h' el. element_is_displayed d h' el = Inr (shown el)"
    and k: "k < length ps"
    and hp: "\<And>h' j. j \<le> k \<Longrightarrow>
               isl (wait_until_presence d h' (pattern_xpath (ps ! j)) (default_wait pg)) = False"
    and he: "\<And>h' j. j \<le> k \<Longrightarrow>
               driver_find_elements d h' (pattern_xpath (ps ! j)) = Inr (elems (ps ! j))"
    and match: "first_text (shown_text shown txt) (concat (map elems (take (Suc k) ps))) \<noteq> []"
  shows "fst (scan_patterns pg d ps h)
     = Inr (Some (first_text (shown_text shown txt) (concat (map elems (take (Suc k) ps)))))"
proof -
  have idx: "\<exists>j\<le>k. p = ps ! j" if "p \<in> set (take (Suc k) ps)" for p
  proof -
    from that obtain j where "j < length (take (Suc k) ps)" "take (Suc k) ps ! j = p"
      by (auto simp: in_set_conv_nth)
    then have "j \<le> k" "p = ps ! j" by auto
    then show ?thesis by blast
  qed
  have hp': "isl (wait_until_presence d h' (pattern_xpath p) (default_wait pg)) = False"
    if "p \<in> set (take (Suc k) ps)" for h' p
    using idx [OF that] hp by blast
  have he': "driver_find_elements d h' (pattern_xpath p) = Inr (elems p)"
    if "p \<in> set (take (Suc k) ps)" for h' p
    using idx [OF that] he by blast
  have "fst (scan_patterns pg d (take (Suc k) ps) h)
     = Inr (if first_text (shown_text shown txt) (concat (map elems (take (Suc k) ps))) \<noteq> []
            then Some (first_text (shown_text shown txt) (concat (map elems (take (Suc k) ps))))
            else None)"
    by (rule scan_patterns_static [OF ht hs hp' he'])
  with match have "fst (scan_patterns pg d (take (Suc k) ps) h)
     = Inr (Some (first_text (shown_text shown txt) (concat (map elems (take (Suc k) ps)))))"
    by simp
  then have "fst (scan_patterns pg d (take (Suc k) ps @ drop (Suc k) ps) h)
     = Inr (Some (first_text (shown_text shown txt) (concat (map elems (take (Suc k) ps)))))"
    by (rule scan_patterns_prefix)
  then show ?thesis by simp
qed

lemma text_patterns_result:
  "fst (scan_patterns pg d error_patterns h) = Inr found \<Longrightarrow>
   fst (find_error_by_text_patterns pg d h)
     = Inr (case found of Some error_text \<Rightarrow> error_text | None \<Rightarrow> [])"
  by (cases "scan_patterns pg d error_patterns h")
     (simp add: find_error_by_text_patterns_def io_defs)

lemma text_patterns_raise:
  "isl (fst (scan_patterns pg d error_patterns h)) \<Longrightarrow>
   fst (find_error_by_text_patterns pg d h) = Inr []"
  by (cases "scan_patterns pg d error_patterns h"; cases "fst (scan_patterns pg d error_patterns h)")
     (simp_all add: find_error_by_text_patterns_def io_defs)

lemma get_error_message_by_locators:
  "fst (find_error_by_locators pg d h) = Inr m \<Longrightarrow> m \<noteq> [] \<Longrightarrow>
   fst (get_error_message pg d h) = Inr m"
  by (simp add: get_error_message_def bind_fst [of "find_error_by_locators pg d" h] return_def)

lemma get_error_message_by_text:
  "fst (find_error_by_locators pg d h) = Inr [] \<Longrightarrow>
   fst (find_error_by_text_patterns pg d (snd (find_error_by_locators pg d h))) = Inr m \<Longrightarrow>
   fst (get_error_message pg d h) = Inr m"
  by (simp add: get_error_message_def bind_fst [of "find_error_by_locators pg d" h]
      bind_fst [of "find_error_by_text_patterns pg d" "snd (find_error_by_locators pg d h)"] return_def)

lemma error_locators_distinct [simp]:
  "ERROR_MESSAGE \<noteq> GENERIC_ERROR" "ERROR_MESSAGE \<noteq> EMAIL_ERROR" "PASSWORD_ERROR \<noteq> GENERIC_ERROR"
  "PASSWORD_ERROR \<noteq> EMAIL_ERROR" "GENERIC_ERROR \<noteq> EMAIL_ERROR" "EMAIL_ERROR \<noteq> GENERIC_ERROR"
  "fst ERROR_MESSAGE \<noteq> By_XPATH" "fst GENERIC_ERROR \<noteq> By_XPATH" "fst EMAIL_ERROR \<noteq> By_XPATH"
  "fst PASSWORD_ERROR \<noteq> By_XPATH" "fst (pattern_xpath p) = By_XPATH"
  "ERROR_MESSAGE \<noteq> EMAIL_FIELD_ALT" "GENERIC_ERROR \<noteq> EMAIL_FIELD_ALT" "EMAIL_ERROR \<noteq> EMAIL_FIELD_ALT"
  "PASSWORD_ERROR \<noteq> EMAIL_FIELD_ALT"
  by (simp_all add: ERROR_MESSAGE_def GENERIC_ERROR_def EMAIL_ERROR_def PASSWORD_ERROR_def
      EMAIL_FIELD_ALT_def pattern_xpath_def By_ID_def By_CSS_SELECTOR_def By_XPATH_def)

lemma two_errors_page_sel [simp]:
  "wait_until_visible two_errors_page h l t
     = (if l = GENERIC_ERROR then Inr 1 else if l = EMAIL_ERROR then Inr 2 else Inl TimeoutException)"
  "element_text two_errors_page h el
     = Inr (if el = 1 then ''Login failed'' else ''Enter an email address'')"
  by (simp_all add: two_errors_page_def static_driver_def)

lemma keyword_xpaths_distinct [simp]:
  "pattern_xpath ''incorrect'' \<noteq> pattern_xpath ''invalid''"
  "pattern_xpath ''invalid'' \<noteq> pattern_xpath ''incorrect''"
  "pattern_xpath ''wrong'' \<noteq> pattern_xpath ''incorrect''"
  "pattern_xpath ''wrong'' \<noteq> pattern_xpath ''invalid''"
  "ERROR_MESSAGE \<noteq> pattern_xpath p" "GENERIC_ERROR \<noteq> pattern_xpath p"
  "EMAIL_ERROR \<noteq> pattern_xpath p" "PASSWORD_ERROR \<noteq> pattern_xpath p"
  by (simp_all add: pattern_xpath_def ERROR_MESSAGE_def GENERIC_ERROR_def EMAIL_ERROR_def
      PASSWORD_ERROR_def By_ID_def By_CSS_SELECTOR_def By_XPATH_def)

lemma incorrect_only_page_sel [simp]:
  "wait_until_visible incorrect_only_page h l t
     = (if l = pattern_xpath ''incorrect'' then Inr 4 else Inl TimeoutException)"
  "wait_until_presence incorrect_only_page h l t
     = (if l = pattern_xpath ''incorrect'' then Inr 4 else Inl TimeoutException)"
  "driver_find_elements incorrect_only_page h l
     = Inr (if l = pattern_xpath ''incorrect'' then [4] else [])"
  "element_text incorrect_only_page h el = Inr ''Incorrect username or password.''"
  "element_is_displayed incorrect_only_page h el = Inr True"
  by (simp_all add: incorrect_only_page_def static_driver_def)

lemma blank_then_invalid_page_sel [simp]:
  "wait_until_visible blank_then_invalid_page h l t
     = (if l = pattern_xpath ''incorrect'' then Inr 5
        else if l = pattern_xpath ''invalid'' then Inr 6 else Inl TimeoutException)"
  "wait_until_presence blank_then_invalid_page h l t
     = (if l = pattern_xpath ''incorrect'' then Inr 5
        else if l = pattern_xpath ''invalid'' then Inr 6 else Inl TimeoutException)"
  "driver_find_elements blank_then_invalid_page h l
     = Inr (if l = pattern_xpath ''incorrect'' then [5]
            else if l = pattern_xpath ''invalid'' then [6] else [])"
  "element_text blank_then_invalid_page h el
     = Inr (if el = 5 then ''  '' else ''Invalid email address'')"
  "element_is_displayed blank_then_invalid_page h el = Inr True"
  by (simp_all add: blank_then_invalid_page_def static_driver_def)

lemma alt_email_page_reads [simp]:
  "driver_find_elements alt_email_page h l = Inr (if l = EMAIL_FIELD_ALT then [1] else [])"
  "element_text alt_email_page h el = Inr []"
  "element_is_displayed alt_email_page h el = Inr True"
  by (simp_all add: alt_email_page_def static_driver_def)

lemma strip_examples:
  "strip ''Login failed'' = ''Login failed''"
  "strip ''Enter an email address'' = ''Enter an email address''"
  "strip ''Invalid email address'' = ''Invalid email address''"
  "strip ''Incorrect username or password.'' = ''Incorrect username or password.''"
  "strip ''  '' = []"
  "strip [] = []"
  by code_simp+

text \<open>
  C4, as the code has it, on a page that does not change while it is read. The locators
  are tried in the order \<open>ERROR_MESSAGE\<close>, \<open>GENERIC_ERROR\<close>, \<open>EMAIL_ERROR\<close>, \<open>PASSWORD_ERROR\<close>,
  and the stripped text of the first one that is visible with a non-empty text is the
  result. Only when none of them gives a text are the keywords scanned, in their order:
  when the lookups of the keywords up to some keyword return their elements and one of
  these elements is displayed with a non-empty text, the result is the stripped text of
  the first such element; the keywords after it are not looked up and nothing is assumed
  of them. When no element returned by any lookup is displayed with a non-empty text, the
  result is the empty string, also when a lookup raises.
\<close>

theorem error_message_lookup_order:
  "((\<forall>h' l t. wait_until_visible d h' l t = vis l)
    \<and> (\<forall>h' el. element_text d h' el = Inr (txt el))
    \<and> first_text (located_text vis txt) [ERROR_MESSAGE, GENERIC_ERROR, EMAIL_ERROR, PASSWORD_ERROR] \<noteq> []
    \<longrightarrow> fst (get_error_message pg d h)
          = Inr (first_text (located_text vis txt)
                   [ERROR_MESSAGE, GENERIC_ERROR, EMAIL_ERROR, PASSWORD_ERROR]))
   \<and> ((\<forall>h' l t. wait_until_visible d h' l t = vis l)
    \<and> (\<forall>h' el. element_text d h' el = Inr (txt el))
    \<and> first_text (located_text vis txt) [ERROR_MESSAGE, GENERIC_ERROR, EMAIL_ERROR, PASSWORD_ERROR] = []
    \<and> (\<forall>h' el. element_is_displayed d h' el = Inr (shown el))
    \<and> k < length error_patterns
    \<and> (\<forall>h' j. j \<le> k
          \<longrightarrow> \<not> isl (wait_until_presence d h' (pattern_xpath (error_patterns ! j)) (default_wait pg)))
    \<and> (\<forall>h' j. j \<le> k
          \<longrightarrow> driver_find_elements d h' (pattern_xpath (error_patterns ! j))
              = Inr (elems (error_patterns ! j)))
    \<and> first_text (shown_text shown txt) (concat (map elems (take (Suc k) error_patterns))) \<noteq> []
    \<longrightarrow> fst (get_error_message pg d h)
          = Inr (first_text (shown_text shown txt)
                   (concat (map elems (take (Suc k) error_patterns)))))
   \<and> ((\<forall>h' l t. wait_until_visible d h' l t = vis l)
    \<and> (\<forall>h' el. element_text d h' el = Inr (txt el))
    \<and> first_text (located_text vis txt) [ERROR_MESSAGE, GENERIC_ERROR, EMAIL_ERROR, PASSWORD_ERROR] = []
    \<and> (\<forall>h' el. element_is_displayed d h' el = Inr (shown el))
    \<and> (\<forall>h' p els el. driver_find_elements d h' (pattern_xpath p) = Inr els \<and> el \<in> set els
          \<longrightarrow> shown_text shown txt el = [])
    \<longrightarrow> fst (get_error_message pg d h) = Inr [])"
proof (intro conjI impI)
  assume a: "(\<forall>h' l t. wait_until_visible d h' l t = vis l)
    \<and> (\<forall>h' el. element_text d h' el = Inr (txt el))
    \<and> first_text (located_text vis txt) [ERROR_MESSAGE, GENERIC_ERROR, EMAIL_ERROR, PASSWORD_ERROR] \<noteq> []"
  then have hv: "\<And>h' l t. wait_until_visible d h' l t = vis l"
    and ht: "\<And>h' el. element_text d h' el = Inr (txt el)"
    by blast+
  have "fst (find_error_by_locators pg d h)
      = Inr (first_text (located_text vis txt) [ERROR_MESSAGE, GENERIC_ERROR, EMAIL_ERROR, PASSWORD_ERROR])"
    unfolding find_error_by_locators_def error_locators_def
    by (rule find_error_in_static [OF hv ht])
  with a show "fst (get_error_message pg d h)
          = Inr (first_text (located_text vis txt)
                   [ERROR_MESSAGE, GENERIC_ERROR, EMAIL_ERROR, PASSWORD_ERROR])"
    by (intro get_error_message_by_locators) simp_all
next
  assume a: "(\<forall>h' l t. wait_until_visible d h' l t = vis l)
    \<and> (\<forall>h' el. element_text d h' el = Inr (txt el))
    \<and> first_text (located_text vis txt) [ERROR_MESSAGE, GENERIC_ERROR, EMAIL_ERROR, PASSWORD_ERROR] = []
    \<and> (\<forall>h' el. element_is_displayed d h' el = Inr (shown el))
    \<and> k < length error_patterns
    \<and> (\<forall>h' j. j \<le> k
          \<longrightarrow> \<not> isl (wait_until_presence d h' (pattern_xpath (error_patterns ! j)) (default_wait pg)))
    \<and> (\<forall>h' j. j \<le> k
          \<longrightarrow> driver_find_elements d h' (pattern_xpath (error_patterns ! j))
              = Inr (elems (error_patterns ! j)))
    \<and> first_text (shown_text shown txt) (concat (map elems (take (Suc k) error_patterns))) \<noteq> []"
  then have hv: "\<And>h' l t. wait_until_visible d h' l t = vis l"
    and ht: "\<And>h' el. element_text d h' el = Inr (txt el)"
    and hs: "\<And>h' el. element_is_displayed d h' el = Inr (shown el)"
    and k: "k < length error_patterns"
    and hp: "\<And>h' j. j \<le> k \<Longrightarrow>
               isl (wait_until_presence d h' (pattern_xpath (error_patterns ! j)) (default_wait pg)) = False"
    and he: "\<And>h' j. j \<le> k \<Longrightarrow>
               driver_find_elements d h' (pattern_xpath (error_patterns ! j))
                 = Inr (elems (error_patterns ! j))"
    and match: "first_text (shown_text shown txt) (concat (map elems (take (Suc k) error_patterns))) \<noteq> []"
    by blast+
  have "fst (find_error_by_locators pg d h)
      = Inr (first_text (located_text vis txt) [ERROR_MESSAGE, GENERIC_ERROR, EMAIL_ERROR, PASSWORD_ERROR])"
    unfolding find_error_by_locators_def error_locators_def
    by (rule find_error_in_static [OF hv ht])
  with a have loc: "fst (find_error_by_locators pg d h) = Inr []" by simp
  have "fst (scan_patterns pg d error_patterns h1)
     = Inr (Some (first_text (shown_text shown txt)
                    (concat (map elems (take (Suc k) error_patterns)))))" for h1
    by (rule scan_patterns_first_match [OF ht hs k hp he match])
  then have "fst (find_error_by_text_patterns pg d h1)
     = Inr (first_text (shown_text shown txt) (concat (map elems (take (Suc k) error_patterns))))" for h1
    using text_patterns_result [of pg d h1] by simp
  with loc show "fst (get_error_message pg d h)
          = Inr (first_text (shown_text shown txt)
                   (concat (map elems (take (Suc k) error_patterns))))"
    by (intro get_error_message_by_text) simp_all
next
  assume a: "(\<forall>h' l t. wait_until_visible d h' l t = vis l)
    \<and> (\<forall>h' el. element_text d h' el = Inr (txt el))
    \<and> first_text (located_text vis txt) [ERROR_MESSAGE, GENERIC_ERROR, EMAIL_ERROR, PASSWORD_ERROR] = []
    \<and> (\<forall>h' el. element_is_displayed d h' el = Inr (shown el))
    \<and> (\<forall>h' p els el. driver_find_elements d h' (pattern_xpath p) = Inr els \<and> el \<in> set els
          \<longrightarrow> shown_text shown txt el = [])"
  then have hv: "\<And>h' l t. wait_until_visible d h' l t = vis l"
    and ht: "\<And>h' el. element_text d h' el = Inr (txt el)"
    and hs: "\<And>h' el. element_is_displayed d h' el = Inr (shown el)"
    and hn: "\<And>h' p els el. driver_find_elements d h' (pattern_xpath p) = Inr els \<Longrightarrow>
               el \<in> set els \<Longrightarrow> shown_text shown txt el = []"
    by blast+
  have "fst (find_error_by_locators pg d h)
      = Inr (first_text (located_text vis txt) [ERROR_MESSAGE, GENERIC_ERROR, EMAIL_ERROR, PASSWORD_ERROR])"
    unfolding find_error_by_locators_def error_locators_def
    by (rule find_error_in_static [OF hv ht])
  with a have loc: "fst (find_error_by_locators pg d h) = Inr []" by simp
  have "fst (scan_patterns pg d error_patterns h1) = Inr None
      \<or> isl (fst (scan_patterns pg d error_patterns h1))" for h1
    by (rule scan_patterns_nothing [OF ht hs hn])
  then have "fst (find_error_by_text_patterns pg d h1) = Inr []" for h1
    using text_patterns_result [of pg d h1 None] text_patterns_raise [of pg d h1] by auto
  with loc show "fst (get_error_message pg d h) = Inr []"
    by (intro get_error_message_by_text) simp_all
qed

text \<open>
  Four pages: one that shows the generic banner and the error of the e-mail field, one
  where only the keyword \<open>incorrect\<close> finds an element, one where \<open>incorrect\<close> finds an element
  with a blank text and \<open>invalid\<close> finds the message, and one without any error.
\<close>

theorem error_message_lookup_order_witness:
  "fst (get_error_message no_config_page two_errors_page []) = Inr ''Login failed''
   \<and> wait_until_presence incorrect_only_page [] (pattern_xpath ''invalid'') 20 = Inl TimeoutException
   \<and> fst (get_error_message no_config_page incorrect_only_page [])
       = Inr ''Incorrect username or password.''
   \<and> wait_until_presence blank_then_invalid_page [] (pattern_xpath ''wrong'') 20 = Inl TimeoutException
   \<and> fst (get_error_message no_config_page blank_then_invalid_page [])
       = Inr ''Invalid email address''
   \<and> fst (get_error_message no_config_page alt_email_page []) = Inr []"
  using error_message_lookup_order [of two_errors_page
      "\<lambda>l. if l = GENERIC_ERROR then Inr 1 else if l = EMAIL_ERROR then Inr 2 else Inl TimeoutException"
      "\<lambda>el. if el = 1 then ''Login failed'' else ''Enter an email address''"
      no_config_page "[]" "\<lambda>el. True" 0 "\<lambda>p. []"]
    error_message_lookup_order [of incorrect_only_page
      "\<lambda>l. if l = pattern_xpath ''incorrect'' then Inr 4 else Inl TimeoutException"
      "\<lambda>el. ''Incorrect username or password.''"
      no_config_page "[]" "\<lambda>el. True" 0 "\<lambda>p. if p = ''incorrect'' then [4] else []"]
    error_message_lookup_order [of blank_then_invalid_page
      "\<lambda>l. if l = pattern_xpath ''incorrect'' then Inr 5
           else if l = pattern_xpath ''invalid'' then Inr 6 else Inl TimeoutException"
      "\<lambda>el. if el = 5 then ''  '' else ''Invalid email address''"
      no_config_page "[]" "\<lambda>el. True" 1
      "\<lambda>p. if p = ''incorrect'' then [5] else if p = ''invalid'' then [6] else []"]
    error_message_lookup_order [of alt_email_page
      "\<lambda>l. if l = EMAIL_FIELD_ALT then Inr 1 else Inl TimeoutException"
      "\<lambda>el. []"
      no_config_page "[]" "\<lambda>el. True" 0 "\<lambda>p. []"]
  by (simp add: first_text_Cons located_text_def shown_text_def strip_examples error_patterns_def
      default_wait_def no_config_page_def less_Suc_eq_le le_Suc_eq)

text \<open>
  A page that shows the generic banner and the error of the e-mail field: the result is the
  text of the banner, although the field error is visible and has a text.
\<close>

theorem error_message_order_counterexample:
  "fst (get_error_message no_config_page two_errors_page []) = Inr ''Login failed''
   \<and> wait_until_visible two_errors_page [] EMAIL_ERROR 3 = Inr 2
   \<and> element_text two_errors_page [] 2 = Inr ''Enter an email address''"
  by (simp add: get_error_message_def find_error_by_locators_def error_locators_def
      error_timeout_def no_config_page_def find_visible_element_def wait_timeout_def
      strip_examples io_defs Let_def)

end
